theory Spec2Isabelle
  imports Complex_Main "HOL-Library.Word" "HOL-Library.Multiset"
    "HOL-Library.Char_ord" "HOL-Library.List_Lexorder"
begin

section \<open>Classification engine: the stored procedures\<close>

text \<open>
  The procedures \<open>is_admin\<close>, \<open>classify_contribution\<close> and \<open>reject_contribution\<close>
  are PL/pgSQL. A nullable SQL value is an \<open>option\<close> (\<open>None\<close> is NULL), a boolean
  expression is a \<open>bool option\<close> (three-valued logic), and a table is the list of its rows.
\<close>

type_synonym uuid = string
type_synonym timestamp = nat

subsection \<open>Three-valued logic\<close>

text \<open>\<open>a = b\<close> on text: NULL when the left operand is NULL.\<close>

definition sql_eq :: "string option \<Rightarrow> string \<Rightarrow> bool option" where
  "sql_eq a b = map_option (\<lambda>x. x = b) a"

definition sql_not :: "bool option \<Rightarrow> bool option" where
  "sql_not b = map_option Not b"

text \<open>\<open>x NOT IN (v1, ..., vn)\<close> over non-null literals: NULL when \<open>x\<close> is NULL.\<close>

definition sql_not_in :: "string option \<Rightarrow> string list \<Rightarrow> bool option" where
  "sql_not_in x vs = map_option (\<lambda>v. v \<notin> set vs) x"

text \<open>
  \<open>IF cond THEN ... END IF\<close> and \<open>CASE WHEN cond THEN ...\<close> take the branch only when
  the condition is true; a NULL condition counts as not true.
\<close>

definition is_true :: "bool option \<Rightarrow> bool" where
  "is_true b = (b = Some True)"

subsection \<open>Caller identity\<close>

text \<open>
  What \<open>auth.jwt()\<close> yields for the two paths the procedures read:
  \<open>(auth.jwt()->>'app_metadata')::jsonb->>'role'\<close> and the same under
  \<open>user_metadata\<close>. A claim that is absent reads as NULL.
\<close>

record jwt =
  app_metadata_role :: "string option"
  user_metadata_role :: "string option"

text \<open>The hardened \<open>is_admin()\<close> of the security migration.\<close>

definition is_admin :: "jwt \<Rightarrow> bool option" where
  "is_admin j =
     (let v_role = app_metadata_role j in
      if is_true (sql_eq v_role ''admin'') then Some True
      else let v_role = user_metadata_role j in sql_eq v_role ''admin'')"

text \<open>The earlier \<open>is_admin()\<close> of the RLS helper migration, with its COALESCE.\<close>

definition is_admin_rls :: "jwt \<Rightarrow> bool option" where
  "is_admin_rls j =
     Some (case sql_eq (user_metadata_role j) ''admin'' of None \<Rightarrow> False | Some b \<Rightarrow> b)"

subsection \<open>Tables\<close>

text \<open>
  A row of \<open>contributions\<close>. \<open>c_classified_by\<close> and \<open>c_classified_at\<close> are the admin
  and time stamp columns that the refactor migration drops; \<open>c_other\<close> holds the
  remaining columns by name (submitter, location, image references, brand, ...), a column
  that is NULL being absent. The stored procedures name none of them.
\<close>

record contribution =
  c_id :: uuid
  c_status :: "string option"
  c_notes :: "string option"
  c_classified_by :: "uuid option"
  c_classified_at :: "timestamp option"
  c_other :: "(string \<times> string) list"

record classification =
  cl_id :: uuid
  cl_contribution_id :: uuid
  cl_brand :: string
  cl_manufacturer :: string
  cl_plastic_type :: "string option"
  cl_classified_by :: uuid
  cl_classified_at :: timestamp
  cl_admin_notes :: "string option"
  cl_confidence_level :: "string option"
  cl_created_at :: timestamp
  cl_updated_at :: timestamp
  cl_product_type :: "string option"
  cl_beach_id :: "int option"
  cl_company_id :: "int option"
  cl_beach_latitude :: "real option"
  cl_beach_longitude :: "real option"

datatype jsonb = JNull | JText string | JNumber int | JObject "(string \<times> jsonb) list"

record review_row =
  rh_id :: uuid
  rh_contribution_id :: uuid
  rh_admin_id :: uuid
  rh_action :: string
  rh_previous_status :: "string option"
  rh_new_status :: "string option"
  rh_changes :: "jsonb option"
  rh_reason :: "string option"
  rh_created_at :: timestamp

text \<open>
  The database. \<open>stamp_columns\<close> says whether \<open>contributions.classified_by\<close> and
  \<open>contributions.classified_at\<close> exist: they are added by the 2025-12-27 migration and
  dropped again by section 3 of the refactor migration, which drops \<open>brand\<close>,
  \<open>manufacturer\<close>, \<open>plastic_type\<close> and \<open>product_type\<close> of \<open>contributions\<close> with
  them. \<open>auth_users\<close>, \<open>beaches\<close> and \<open>companies\<close> are the keys that the foreign keys
  of the written tables refer to.
\<close>

record db =
  stamp_columns :: bool
  auth_users :: "uuid list"
  beaches :: "int list"
  companies :: "int list"
  contributions :: "contribution list"
  classifications :: "classification list"
  review_history :: "review_row list"

text \<open>What a statement can raise; every one of them is caught by \<open>WHEN OTHERS\<close>.\<close>

datatype pg_error =
    RaiseException string
  | NotNullViolation string
  | ForeignKeyViolation string
  | UniqueViolation string
  | UndefinedColumn string

text \<open>The jsonb object a procedure returns; a key that is not built is \<open>None\<close>.\<close>

record rpc_result =
  success :: bool
  classification_id :: "uuid option"
  previous_status :: "string option"
  error :: "pg_error option"

text \<open>
  What the session supplies to one call: the caller's token, \<open>now()\<close>, and the two
  values \<open>gen_random_uuid()\<close> yields for the \<open>id\<close> defaults of a new classification
  row and of a new history row.
\<close>

record session =
  caller :: jwt
  now :: timestamp
  new_classification_id :: uuid
  new_history_id :: uuid

subsection \<open>Statements\<close>

text \<open>\<open>SELECT status INTO v FROM contributions WHERE id = p\<close>: NULL when no row matches.\<close>

definition select_status :: "contribution list \<Rightarrow> uuid option \<Rightarrow> string option" where
  "select_status rows p =
     (case p of None \<Rightarrow> None
      | Some i \<Rightarrow> (case find (\<lambda>r. c_id r = i) rows of None \<Rightarrow> None | Some r \<Rightarrow> c_status r))"

definition text_of :: "string option \<Rightarrow> string" where
  "text_of v = (case v of None \<Rightarrow> ''<NULL>'' | Some s \<Rightarrow> s)"

definition json_text :: "string option \<Rightarrow> jsonb" where
  "json_text v = (case v of None \<Rightarrow> JNull | Some s \<Rightarrow> JText s)"

definition json_int :: "int option \<Rightarrow> jsonb" where
  "json_int v = (case v of None \<Rightarrow> JNull | Some n \<Rightarrow> JNumber n)"

text \<open>The arguments of \<open>classify_contribution\<close> (refactor migration), by name.\<close>

record classify_args =
  p_contribution_id :: "uuid option"
  p_admin_id :: "uuid option"
  p_brand :: "string option"
  p_manufacturer :: "string option"
  p_plastic_type :: "string option"
  p_admin_notes :: "string option"
  p_confidence_level :: "string option"
  p_product_type :: "string option"
  p_beach_id :: "int option"
  p_company_id :: "int option"
  p_beach_latitude :: "real option"
  p_beach_longitude :: "real option"

text \<open>
  \<open>INSERT INTO classifications ... ON CONFLICT (contribution_id) DO UPDATE SET ...
  RETURNING id\<close>. The proposed row is checked against NOT NULL first; a row with the same
  \<open>contribution_id\<close> is then overwritten in place (keeping its \<open>id\<close> and \<open>created_at\<close>),
  otherwise the row is added with the column defaults, and its fresh \<open>id\<close> must not
  collide with the primary key. The foreign keys are checked on the resulting row.
\<close>

definition excluded_row :: "session \<Rightarrow> uuid \<Rightarrow> classify_args \<Rightarrow> string \<Rightarrow> string \<Rightarrow> uuid
     \<Rightarrow> classification" where
  "excluded_row s cid a brand manufacturer admin =
     \<lparr>cl_id = new_classification_id s, cl_contribution_id = cid,
      cl_brand = brand, cl_manufacturer = manufacturer,
      cl_plastic_type = p_plastic_type a, cl_classified_by = admin,
      cl_classified_at = now s, cl_admin_notes = p_admin_notes a,
      cl_confidence_level = p_confidence_level a,
      cl_created_at = now s, cl_updated_at = now s,
      cl_product_type = p_product_type a, cl_beach_id = p_beach_id a,
      cl_company_id = p_company_id a,
      cl_beach_latitude = p_beach_latitude a,
      cl_beach_longitude = p_beach_longitude a\<rparr>"

text \<open>The DO UPDATE SET list: every column but \<open>id\<close>, \<open>contribution_id\<close>, \<open>created_at\<close>.\<close>

definition do_update :: "session \<Rightarrow> classification \<Rightarrow> classification \<Rightarrow> classification" where
  "do_update s excluded c =
     c\<lparr>cl_brand := cl_brand excluded, cl_manufacturer := cl_manufacturer excluded,
       cl_plastic_type := cl_plastic_type excluded,
       cl_classified_by := cl_classified_by excluded,
       cl_classified_at := now s, cl_admin_notes := cl_admin_notes excluded,
       cl_confidence_level := cl_confidence_level excluded,
       cl_product_type := cl_product_type excluded, cl_beach_id := cl_beach_id excluded,
       cl_company_id := cl_company_id excluded,
       cl_beach_latitude := cl_beach_latitude excluded,
       cl_beach_longitude := cl_beach_longitude excluded,
       cl_updated_at := now s\<rparr>"

definition fk_ok :: "'a option \<Rightarrow> 'a list \<Rightarrow> bool" where
  "fk_ok v keys = (case v of None \<Rightarrow> True | Some k \<Rightarrow> k \<in> set keys)"

text \<open>The table after \<open>INSERT ... ON CONFLICT (contribution_id) DO UPDATE\<close>.\<close>

definition on_conflict_do_update ::
  "session \<Rightarrow> uuid \<Rightarrow> classification \<Rightarrow> classification list \<Rightarrow> classification list" where
  "on_conflict_do_update s cid excluded rows =
     (case find (\<lambda>c. cl_contribution_id c = cid) rows of
        Some old \<Rightarrow> map (\<lambda>c. if cl_contribution_id c = cid then do_update s excluded c else c) rows
      | None \<Rightarrow> rows @ [excluded])"

text \<open>\<open>RETURNING id\<close>: the id of the row that was overwritten or added.\<close>

definition returning_id :: "uuid \<Rightarrow> classification \<Rightarrow> classification list \<Rightarrow> uuid" where
  "returning_id cid excluded rows =
     (case find (\<lambda>c. cl_contribution_id c = cid) rows of
        Some old \<Rightarrow> cl_id old
      | None \<Rightarrow> cl_id excluded)"

definition upsert_classification ::
  "session \<Rightarrow> uuid \<Rightarrow> classify_args \<Rightarrow> db \<Rightarrow> pg_error + (uuid \<times> db)" where
  "upsert_classification s cid a d =
     (case (p_brand a, p_manufacturer a, p_admin_id a) of
        (None, _, _) \<Rightarrow> Inl (NotNullViolation ''brand'')
      | (_, None, _) \<Rightarrow> Inl (NotNullViolation ''manufacturer'')
      | (_, _, None) \<Rightarrow> Inl (NotNullViolation ''classified_by'')
      | (Some brand, Some manufacturer, Some admin) \<Rightarrow>
         (let excluded = excluded_row s cid a brand manufacturer admin;
              conflict = find (\<lambda>c. cl_contribution_id c = cid) (classifications d)
          in if conflict = None \<and> cl_id excluded \<in> set (map cl_id (classifications d))
             then Inl (UniqueViolation ''classifications_pkey'')
             else if \<not> fk_ok (Some admin) (auth_users d)
             then Inl (ForeignKeyViolation ''classified_by'')
             else if \<not> fk_ok (p_beach_id a) (beaches d)
             then Inl (ForeignKeyViolation ''beach_id'')
             else if \<not> fk_ok (p_company_id a) (companies d)
             then Inl (ForeignKeyViolation ''company_id'')
             else Inr (returning_id cid excluded (classifications d),
                    d\<lparr>classifications :=
                        on_conflict_do_update s cid excluded (classifications d)\<rparr>)))"

text \<open>\<open>INSERT INTO review_history (...) VALUES (...)\<close>: one row appended.\<close>

definition insert_review_history ::
  "session \<Rightarrow> uuid \<Rightarrow> uuid option \<Rightarrow> string \<Rightarrow> string option \<Rightarrow> string
     \<Rightarrow> jsonb option \<Rightarrow> string option \<Rightarrow> db \<Rightarrow> pg_error + db" where
  "insert_review_history s cid admin action prev new changes reason d =
     (case admin of None \<Rightarrow> Inl (NotNullViolation ''admin_id'') | Some adm \<Rightarrow>
      if new_history_id s \<in> set (map rh_id (review_history d))
      then Inl (UniqueViolation ''review_history_pkey'')
      else if adm \<notin> set (auth_users d) then Inl (ForeignKeyViolation ''admin_id'')
      else Inr (d\<lparr>review_history := review_history d @
             [\<lparr>rh_id = new_history_id s, rh_contribution_id = cid, rh_admin_id = adm,
               rh_action = action, rh_previous_status = prev, rh_new_status = Some new,
               rh_changes = changes, rh_reason = reason, rh_created_at = now s\<rparr>]\<rparr>))"

subsection \<open>classify_contribution\<close>

text \<open>The body between BEGIN and EXCEPTION: \<open>Inl\<close> is a raised error.\<close>

definition classify_body :: "session \<Rightarrow> classify_args \<Rightarrow> db \<Rightarrow> pg_error + (rpc_result \<times> db)" where
  "classify_body s a d =
     (if is_true (sql_not (is_admin (caller s)))
      then Inl (RaiseException ''Access denied: Admin privileges required'')
      else if is_true (sql_not_in (p_confidence_level a) [''high'', ''medium'', ''low''])
      then Inl (RaiseException (''Invalid confidence level: '' @ text_of (p_confidence_level a)))
      else
        let v_old_status = select_status (contributions d) (p_contribution_id a) in
        case (v_old_status, p_contribution_id a) of
          (Some old, Some cid) \<Rightarrow>
            let d1 = d\<lparr>contributions :=
                  map (\<lambda>r. if c_id r = cid then r\<lparr>c_status := Some ''classified''\<rparr> else r)
                    (contributions d)\<rparr>
            in (case upsert_classification s cid a d1 of
                  Inl e \<Rightarrow> Inl e
                | Inr (v_classification_id, d2) \<Rightarrow>
                   (case insert_review_history s cid (p_admin_id a)
                           (if is_true (sql_eq v_old_status ''classified'')
                            then ''reclassified'' else ''classified'')
                           v_old_status ''classified''
                           (Some (JObject
                              [(''brand'', json_text (p_brand a)),
                               (''manufacturer'', json_text (p_manufacturer a)),
                               (''plastic_type'', json_text (p_plastic_type a)),
                               (''product_type'', json_text (p_product_type a)),
                               (''beach_id'', json_int (p_beach_id a)),
                               (''confidence_level'', json_text (p_confidence_level a))]))
                           None d2 of
                      Inl e \<Rightarrow> Inl e
                    | Inr d3 \<Rightarrow>
                        Inr (\<lparr>success = True, classification_id = Some v_classification_id,
                              previous_status = v_old_status, error = None\<rparr>, d3)))
        | _ \<Rightarrow> Inl (RaiseException
                 (''Contribution not found: '' @ text_of (p_contribution_id a))))"

text \<open>
  The whole function: the EXCEPTION block undoes every write of the body and returns the
  failure object.
\<close>

definition classify_contribution :: "session \<Rightarrow> classify_args \<Rightarrow> db \<Rightarrow> rpc_result \<times> db" where
  "classify_contribution s a d =
     (case classify_body s a d of
        Inl e \<Rightarrow> (\<lparr>success = False, classification_id = None, previous_status = None,
                    error = Some e\<rparr>, d)
      | Inr (r, d') \<Rightarrow> (r, d'))"

subsection \<open>reject_contribution\<close>

record reject_args =
  r_contribution_id :: "uuid option"
  r_admin_id :: "uuid option"
  r_reason :: "string option"

text \<open>
  The UPDATE assigns \<open>classified_by\<close> and \<open>classified_at\<close> of \<open>contributions\<close>: where
  the columns have been dropped the statement raises \<open>undefined_column\<close>; where they
  exist, \<open>classified_by\<close> references \<open>auth.users\<close>.
\<close>

definition reject_body :: "session \<Rightarrow> reject_args \<Rightarrow> db \<Rightarrow> pg_error + (rpc_result \<times> db)" where
  "reject_body s a d =
     (if is_true (sql_not (is_admin (caller s)))
      then Inl (RaiseException ''Access denied: Admin privileges required'')
      else
        let v_old_status = select_status (contributions d) (r_contribution_id a) in
        case (v_old_status, r_contribution_id a) of
          (Some old, Some cid) \<Rightarrow>
            if \<not> stamp_columns d then Inl (UndefinedColumn ''classified_by'')
            else if \<not> fk_ok (r_admin_id a) (auth_users d)
            then Inl (ForeignKeyViolation ''classified_by'')
            else
              let d1 = d\<lparr>contributions :=
                    map (\<lambda>r. if c_id r = cid
                       then r\<lparr>c_status := Some ''rejected'', c_classified_by := r_admin_id a,
                              c_classified_at := Some (now s), c_notes := r_reason a\<rparr>
                       else r) (contributions d)\<rparr>;
                  d2 = d1\<lparr>classifications :=
                    filter (\<lambda>c. cl_contribution_id c \<noteq> cid) (classifications d1)\<rparr>
              in (case insert_review_history s cid (r_admin_id a) ''rejected''
                         v_old_status ''rejected'' None (r_reason a) d2 of
                    Inl e \<Rightarrow> Inl e
                  | Inr d3 \<Rightarrow>
                      Inr (\<lparr>success = True, classification_id = None,
                            previous_status = v_old_status, error = None\<rparr>, d3))
        | _ \<Rightarrow> Inl (RaiseException
                 (''Contribution not found: '' @ text_of (r_contribution_id a))))"

definition reject_contribution :: "session \<Rightarrow> reject_args \<Rightarrow> db \<Rightarrow> rpc_result \<times> db" where
  "reject_contribution s a d =
     (case reject_body s a d of
        Inl e \<Rightarrow> (\<lparr>success = False, classification_id = None, previous_status = None,
                    error = Some e\<rparr>, d)
      | Inr (r, d') \<Rightarrow> (r, d'))"

subsection \<open>The server action classifyContribution\<close>

text \<open>
  The review form of the admin dashboard calls the server action \<open>classifyContribution\<close>
  of \<open>review.ts\<close>. It does not call the stored procedure: it checks the caller with
  \<open>requireAdmin\<close>, validates the form with \<open>classificationSchema\<close> and sends one UPDATE
  on \<open>contributions\<close>. (Its sibling \<open>rejectContribution\<close> calls the stored procedure
  \<open>reject_contribution\<close> through \<open>rpc\<close>.)
\<close>

text \<open>What \<open>supabase.auth.getUser()\<close> yields: the user's id and \<open>user_metadata.role\<close>.\<close>

record auth_user =
  u_id :: uuid
  u_user_metadata_role :: "string option"

definition isAdmin :: "auth_user option \<Rightarrow> bool" where
  "isAdmin user =
     (case user of None \<Rightarrow> False | Some u \<Rightarrow> u_user_metadata_role u = Some ''admin'')"

definition requireAdmin :: "auth_user option \<Rightarrow> string + auth_user" where
  "requireAdmin user =
     (case user of
        None \<Rightarrow> Inl ''Authentication required''
      | Some u \<Rightarrow> if \<not> isAdmin (Some u) then Inl ''Admin access required'' else Inr u)"

text \<open>The form data, as typed by \<open>ClassificationData\<close>; an optional field may be absent.\<close>

record classification_data =
  cls_brand :: string
  cls_manufacturer :: string
  cls_productType :: string
  cls_plasticType :: "string option"
  cls_recyclabilityIndicator :: "string option"
  cls_beachName :: "string option"
  cls_notes :: "string option"
  cls_reviewerFeedback :: "string option"

text \<open>
  \<open>classificationSchema.parse\<close>: the issues found, in the order of the schema's keys; the
  data is returned when there is none.
\<close>

datatype zod_issue =
    BrandIsRequired
  | ManufacturerIsRequired
  | ProductTypeIsRequired
  | InvalidRecyclabilityIndicator

definition classificationSchema_issues :: "classification_data \<Rightarrow> zod_issue list" where
  "classificationSchema_issues data =
     (if cls_brand data = [] then [BrandIsRequired] else []) @
     (if cls_manufacturer data = [] then [ManufacturerIsRequired] else []) @
     (if cls_productType data = [] then [ProductTypeIsRequired] else []) @
     (case cls_recyclabilityIndicator data of
        None \<Rightarrow> []
      | Some v \<Rightarrow> if v \<in> set [''high'', ''medium'', ''low''] then []
                  else [InvalidRecyclabilityIndicator])"

definition classificationSchema_parse :: "classification_data \<Rightarrow> zod_issue list + classification_data"
  where
  "classificationSchema_parse data =
     (if classificationSchema_issues data = [] then Inr data
      else Inl (classificationSchema_issues data))"

text \<open>\<open>value || null\<close> on an optional string: absent and empty both give NULL.\<close>

definition or_null :: "string option \<Rightarrow> string option" where
  "or_null v = (case v of None \<Rightarrow> None | Some x \<Rightarrow> if x = [] then None else Some x)"

text \<open>Assigning one of the columns kept in \<open>c_other\<close>.\<close>

definition set_column :: "string \<Rightarrow> string option \<Rightarrow> (string \<times> string) list
     \<Rightarrow> (string \<times> string) list" where
  "set_column k v cols =
     (case v of
        None \<Rightarrow> filter (\<lambda>p. fst p \<noteq> k) cols
      | Some x \<Rightarrow> filter (\<lambda>p. fst p \<noteq> k) cols @ [(k, x)])"

text \<open>The row after the assignments of the UPDATE.\<close>

definition classified_row :: "auth_user \<Rightarrow> timestamp \<Rightarrow> classification_data \<Rightarrow> contribution
     \<Rightarrow> contribution" where
  "classified_row admin t validated r =
     r\<lparr>c_status := Some ''classified'',
       c_classified_at := Some t,
       c_classified_by := Some (u_id admin),
       c_other :=
         set_column ''reviewer_feedback'' (or_null (cls_reviewerFeedback validated))
          (set_column ''beach_name'' (or_null (cls_beachName validated))
           (set_column ''recyclability_indicator''
              (or_null (cls_recyclabilityIndicator validated))
            (set_column ''plastic_type'' (or_null (cls_plasticType validated))
             (set_column ''product_type'' (Some (cls_productType validated))
              (set_column ''manufacturer'' (Some (cls_manufacturer validated))
               (set_column ''brand'' (Some (cls_brand validated)) (c_other r)))))))\<rparr>"

text \<open>
  \<open>supabase.from('contributions').update({...}).eq('id', contributionId)\<close>. The request
  is refused when it names a column the table does not have, which is the case once the
  refactor migration has dropped \<open>brand\<close>, \<open>manufacturer\<close>, \<open>product_type\<close>,
  \<open>plastic_type\<close>, \<open>classified_at\<close> and \<open>classified_by\<close>; and \<open>classified_by\<close>
  references \<open>auth.users\<close>. A request that matches no row is not an error. The statement
  runs under the policy \<open>admins_update_contributions\<close> (USING \<open>is_admin()\<close>): a caller
  who has passed \<open>requireAdmin\<close> carries the role \<open>admin\<close> in \<open>user_metadata\<close>, for which
  \<open>is_admin()\<close> is true, so every row is within its reach.
\<close>

definition update_contributions ::
  "auth_user \<Rightarrow> timestamp \<Rightarrow> classification_data \<Rightarrow> uuid \<Rightarrow> db \<Rightarrow> pg_error + db" where
  "update_contributions admin t validated contributionId d =
     (if \<not> stamp_columns d then Inl (UndefinedColumn ''brand'')
      else if contributionId \<in> set (map c_id (contributions d))
              \<and> u_id admin \<notin> set (auth_users d)
      then Inl (ForeignKeyViolation ''classified_by'')
      else Inr (d\<lparr>contributions :=
             map (\<lambda>r. if c_id r = contributionId then classified_row admin t validated r else r)
               (contributions d)\<rparr>))"

text \<open>What the action returns: \<open>{success: true}\<close> or \<open>{success: false, error}\<close>.\<close>

datatype action_error = Message string | InvalidData "zod_issue list"

record action_result =
  a_success :: bool
  a_error :: "action_error option"

text \<open>
  The action, given the signed-in user and the time of \<open>new Date()\<close>. Every exception is
  caught and turned into a failure object.
\<close>

definition classifyContribution ::
  "auth_user option \<Rightarrow> timestamp \<Rightarrow> uuid \<Rightarrow> classification_data \<Rightarrow> db \<Rightarrow> action_result \<times> db"
  where
  "classifyContribution user t contributionId data d =
     (case requireAdmin user of
        Inl msg \<Rightarrow> (\<lparr>a_success = False, a_error = Some (Message msg)\<rparr>, d)
      | Inr admin \<Rightarrow>
         (case classificationSchema_parse data of
            Inl issues \<Rightarrow> (\<lparr>a_success = False, a_error = Some (InvalidData issues)\<rparr>, d)
          | Inr validated \<Rightarrow>
             (case update_contributions admin t validated contributionId d of
                Inl updateError \<Rightarrow>
                  (\<lparr>a_success = False,
                    a_error = Some (Message ''Failed to classify contribution'')\<rparr>, d)
              | Inr d' \<Rightarrow> (\<lparr>a_success = True, a_error = None\<rparr>, d'))))"

subsection \<open>Notions used in the statements\<close>

text \<open>The database in which contribution \<open>cid\<close> has been put in status \<open>st\<close>.\<close>

definition with_status :: "uuid \<Rightarrow> string \<Rightarrow> db \<Rightarrow> db" where
  "with_status cid st d =
     d\<lparr>contributions :=
        map (\<lambda>r. if c_id r = cid then r\<lparr>c_status := Some st\<rparr> else r) (contributions d)\<rparr>"

text \<open>A contribution row without its admin and time stamp, as the refactor leaves it.\<close>

definition drop_stamp_columns :: "contribution \<Rightarrow> contribution" where
  "drop_stamp_columns r = r\<lparr>c_classified_by := None, c_classified_at := None\<rparr>"

text \<open>The UNIQUE constraint on \<open>classifications.contribution_id\<close>.\<close>

definition unique_contribution_id :: "classification list \<Rightarrow> bool" where
  "unique_contribution_id rows = distinct (map cl_contribution_id rows)"

definition rows_for :: "uuid \<Rightarrow> classification list \<Rightarrow> classification list" where
  "rows_for cid rows = filter (\<lambda>c. cl_contribution_id c = cid) rows"

subsection \<open>A small database for the concrete runs\<close>

definition sample_db :: db where
  "sample_db =
     \<lparr>stamp_columns = True, auth_users = [''admin-1'', ''user-7''], beaches = [], companies = [],
      contributions =
        [\<lparr>c_id = ''c-1'', c_status = Some ''pending'', c_notes = Some ''found at low tide'',
          c_classified_by = None, c_classified_at = None,
          c_other = [(''user_id'', ''user-7'')]\<rparr>],
      classifications = [], review_history = []\<rparr>"

text \<open>An administrator, and a signed-in user whose token carries no role claim at all.\<close>

definition admin_session :: session where
  "admin_session =
     \<lparr>caller = \<lparr>app_metadata_role = Some ''admin'', user_metadata_role = None\<rparr>, now = 100,
      new_classification_id = ''k-1'', new_history_id = ''h-1''\<rparr>"

text \<open>The same administrator in a later call.\<close>

definition later_admin_session :: session where
  "later_admin_session =
     \<lparr>caller = \<lparr>app_metadata_role = Some ''admin'', user_metadata_role = None\<rparr>, now = 200,
      new_classification_id = ''k-2'', new_history_id = ''h-2''\<rparr>"

definition plain_user_session :: session where
  "plain_user_session =
     \<lparr>caller = \<lparr>app_metadata_role = None, user_metadata_role = None\<rparr>, now = 100,
      new_classification_id = ''k-1'', new_history_id = ''h-1''\<rparr>"

definition sample_classify :: classify_args where
  "sample_classify =
     \<lparr>p_contribution_id = Some ''c-1'', p_admin_id = Some ''admin-1'', p_brand = Some ''Acme'',
      p_manufacturer = Some ''Acme Corp'', p_plastic_type = None, p_admin_notes = None,
      p_confidence_level = Some ''medium'', p_product_type = None, p_beach_id = None,
      p_company_id = None, p_beach_latitude = None, p_beach_longitude = None\<rparr>"

text \<open>The administrator as the server action sees them, and a filled-in review form.\<close>

definition admin_user :: auth_user where
  "admin_user = \<lparr>u_id = ''admin-1'', u_user_metadata_role = Some ''admin''\<rparr>"

definition sample_form_data :: classification_data where
  "sample_form_data =
     \<lparr>cls_brand = ''Acme'', cls_manufacturer = ''Acme Corp'', cls_productType = ''pet_bottle'',
      cls_plasticType = Some ''PET'', cls_recyclabilityIndicator = Some ''high'',
      cls_beachName = None, cls_notes = None, cls_reviewerFeedback = Some ''thanks''\<rparr>"

text \<open>The sample database after section 3 of the refactor migration.\<close>

definition final_schema_db :: db where
  "final_schema_db = sample_db\<lparr>stamp_columns := False\<rparr>"

definition sample_reject :: reject_args where
  "sample_reject =
     \<lparr>r_contribution_id = Some ''c-1'', r_admin_id = Some ''admin-1'', r_reason = Some ''duplicate''\<rparr>"

section \<open>Offline queue: the local durable store\<close>

text \<open>
  The queue lives in the IndexedDB object store \<open>contributions\<close> (key path \<open>id\<close>). The
  store is the collection of its records, a list in which a key occurs at most once and
  whose order carries no meaning: \<open>getAll()\<close> lists the records in ascending order of
  their keys, and string keys are compared code unit by code unit.
\<close>

datatype queue_status = Pending | Uploading | Failed | Completed

record blob =
  blob_bytes :: "8 word list"
  blob_type :: string

record image =
  img_blob :: blob
  img_name :: string

record lat_lng =
  lat :: real
  lng :: real

record beach_location =
  bl_lat :: real
  bl_lng :: real
  bl_name :: string

record form_data =
  fd_brand :: string
  fd_plasticType :: string
  fd_beachName :: "string option"
  fd_notes :: "string option"
  fd_location :: lat_lng
  fd_beachLocation :: "beach_location option"

record images =
  productImage :: image
  backsideImage :: "image option"
  recyclingImage :: "image option"
  manufacturerImage :: "image option"

record queued_contribution =
  q_id :: string
  q_timestamp :: nat
  q_formData :: form_data
  q_images :: images
  q_status :: queue_status
  q_retryCount :: nat
  q_error :: "string option"

type_synonym object_store = "queued_contribution list"

text \<open>\<open>store.getAll()\<close>: the records in key order.\<close>

definition getOfflineQueue :: "object_store \<Rightarrow> queued_contribution list" where
  "getOfflineQueue store = sort_key q_id store"

text \<open>
  \<open>store.clear()\<close> followed by \<open>store.add(item)\<close> for each item, in one transaction.
  \<open>add\<close> fails on a key that is already present; the failed request aborts the
  transaction, which leaves the store as it was.
\<close>

definition saveQueueToIndexedDB :: "queued_contribution list \<Rightarrow> object_store \<Rightarrow> object_store" where
  "saveQueueToIndexedDB queue store = (if distinct (map q_id queue) then queue else store)"

text \<open>Decimal digits of \<open>Date.now()\<close>, as the template string prints them.\<close>

definition digit_char :: "nat \<Rightarrow> char" where
  "digit_char d =
     (if d = 0 then CHR ''0'' else if d = 1 then CHR ''1'' else if d = 2 then CHR ''2''
      else if d = 3 then CHR ''3'' else if d = 4 then CHR ''4'' else if d = 5 then CHR ''5''
      else if d = 6 then CHR ''6'' else if d = 7 then CHR ''7'' else if d = 8 then CHR ''8''
      else CHR ''9'')"

fun decimal :: "nat \<Rightarrow> string" where
  "decimal n =
     (if n < 10 then [digit_char n]
      else decimal (n div 10) @ [digit_char (n mod 10)])"

declare decimal.simps [simp del]

text \<open>
  \<open>saveToOfflineQueue\<close>. \<open>now_id\<close> and \<open>now_ts\<close> are the two readings of \<open>Date.now()\<close>,
  \<open>rnd\<close> is \<open>Math.random().toString(36).substr(2, 9)\<close>.
\<close>

definition saveToOfflineQueue ::
  "nat \<Rightarrow> string \<Rightarrow> nat \<Rightarrow> form_data \<Rightarrow> images \<Rightarrow> object_store \<Rightarrow> string \<times> object_store" where
  "saveToOfflineQueue now_id rnd now_ts formData imgs store =
     (let contribution =
            \<lparr>q_id = ''offline_'' @ decimal now_id @ ''_'' @ rnd, q_timestamp = now_ts,
             q_formData = formData, q_images = imgs, q_status = Pending, q_retryCount = 0,
             q_error = None\<rparr>;
          queue = getOfflineQueue store @ [contribution]
      in (q_id contribution, saveQueueToIndexedDB queue store))"

text \<open>\<open>removeFromQueue\<close>: \<open>store.delete(id)\<close>.\<close>

definition removeFromQueue :: "string \<Rightarrow> object_store \<Rightarrow> object_store" where
  "removeFromQueue i store = filter (\<lambda>q. q_id q \<noteq> i) store"

text \<open>\<open>queue.find(q => q.id === id)\<close> yields the first match, which is then mutated in place.\<close>

fun update_first :: "('a \<Rightarrow> bool) \<Rightarrow> ('a \<Rightarrow> 'a) \<Rightarrow> 'a list \<Rightarrow> 'a list" where
  "update_first P f [] = []"
| "update_first P f (x # xs) = (if P x then f x # xs else x # update_first P f xs)"

text \<open>\<open>if (error)\<close>: an absent or empty string is falsy.\<close>

definition truthy :: "string option \<Rightarrow> bool" where
  "truthy e = (case e of None \<Rightarrow> False | Some s \<Rightarrow> s \<noteq> [])"

definition set_item_status ::
  "queue_status \<Rightarrow> string option \<Rightarrow> queued_contribution \<Rightarrow> queued_contribution" where
  "set_item_status st err item =
     (let item1 = item\<lparr>q_status := st\<rparr>;
          item2 = (if truthy err then item1\<lparr>q_error := err\<rparr> else item1)
      in if st = Failed then item2\<lparr>q_retryCount := q_retryCount item2 + 1\<rparr> else item2)"

definition updateQueueItemStatus ::
  "string \<Rightarrow> queue_status \<Rightarrow> string option \<Rightarrow> object_store \<Rightarrow> object_store" where
  "updateQueueItemStatus i st err store =
     (let queue = getOfflineQueue store in
      case find (\<lambda>q. q_id q = i) queue of
        None \<Rightarrow> store
      | Some item \<Rightarrow>
          saveQueueToIndexedDB (update_first (\<lambda>q. q_id q = i) (set_item_status st err) queue) store)"

section \<open>Sync manager\<close>

text \<open>\<open>new File([blob], name, {type: blob.type})\<close>.\<close>

record js_file =
  file_bytes :: "8 word list"
  file_name :: string
  file_type :: string

definition getFile :: "image \<Rightarrow> js_file" where
  "getFile i = \<lparr>file_bytes = blob_bytes (img_blob i), file_name = img_name i,
               file_type = blob_type (img_blob i)\<rparr>"

text \<open>The row that is inserted into the remote \<open>contributions\<close> table.\<close>

record contribution_data =
  cd_user_id :: "string option"
  cd_product_image_url :: "string option"
  cd_backside_image_url :: "string option"
  cd_recycling_image_url :: "string option"
  cd_manufacturer_image_url :: "string option"
  cd_latitude :: real
  cd_longitude :: real
  cd_beach_latitude :: "real option"
  cd_beach_longitude :: "real option"
  cd_beach_name :: "string option"
  cd_brand_suggestion :: string
  cd_plastic_type_suggestion :: string
  cd_notes :: "string option"
  cd_status :: string
  cd_created_at :: nat

text \<open>The remote side: the objects in the storage bucket and the inserted rows.\<close>

record remote =
  bucket :: "js_file list"
  inserted :: "contribution_data list"

text \<open>
  What the network does during one pass: for an upload, the text of the error it throws
  (\<open>String(error)\<close>) or the public URL of the stored object; for an insert, the text of
  the error or nothing; and the signed-in user.
\<close>

record network =
  storage_upload :: "js_file \<Rightarrow> string + string"
  db_insert :: "contribution_data \<Rightarrow> string option"
  auth_user :: "string option"

definition uploadFile :: "network \<Rightarrow> js_file \<Rightarrow> remote \<Rightarrow> (string + string) \<times> remote" where
  "uploadFile net f r =
     (case storage_upload net f of
        Inl e \<Rightarrow> (Inl e, r)
      | Inr url \<Rightarrow> (Inr url, r\<lparr>bucket := bucket r @ [f]\<rparr>))"

text \<open>An optional image: \<open>img ? uploadFile(getFile(...)) : Promise.resolve(null)\<close>.\<close>

definition upload_optional ::
  "network \<Rightarrow> image option \<Rightarrow> remote \<Rightarrow> (string + string) option \<times> remote" where
  "upload_optional net img r =
     (case img of
        None \<Rightarrow> (None, r)
      | Some i \<Rightarrow> (case uploadFile net (getFile i) r of (res, r') \<Rightarrow> (Some res, r')))"

text \<open>
  \<open>Promise.all\<close> rejects when one of its promises rejects; the uploads are started in
  array order and every one of them runs. The rejection is taken from the first slot
  that failed.
\<close>

fun rejection :: "(string + string) option list \<Rightarrow> string option" where
  "rejection [] = None"
| "rejection (Some (Inl e) # rs) = Some e"
| "rejection (_ # rs) = rejection rs"

definition url_of :: "(string + string) option \<Rightarrow> string option" where
  "url_of res = (case res of Some (Inr url) \<Rightarrow> Some url | _ \<Rightarrow> None)"

text \<open>\<open>x || null\<close> on a number and on a string.\<close>

definition number_or_null :: "real option \<Rightarrow> real option" where
  "number_or_null x = (case x of None \<Rightarrow> None | Some v \<Rightarrow> if v = 0 then None else Some v)"

definition string_or_null :: "string option \<Rightarrow> string option" where
  "string_or_null x = (case x of None \<Rightarrow> None | Some v \<Rightarrow> if v = [] then None else Some v)"

text \<open>The object literal \<open>contributionData\<close>, from the item and the four upload results.\<close>

definition contributionData ::
  "network \<Rightarrow> queued_contribution \<Rightarrow> (string + string) option list \<Rightarrow> contribution_data" where
  "contributionData net item uploadedImages =
     \<lparr>cd_user_id = auth_user net,
      cd_product_image_url = url_of (uploadedImages ! 0),
      cd_backside_image_url = url_of (uploadedImages ! 1),
      cd_recycling_image_url = url_of (uploadedImages ! 2),
      cd_manufacturer_image_url = url_of (uploadedImages ! 3),
      cd_latitude = lat (fd_location (q_formData item)),
      cd_longitude = lng (fd_location (q_formData item)),
      cd_beach_latitude =
        number_or_null (map_option bl_lat (fd_beachLocation (q_formData item))),
      cd_beach_longitude =
        number_or_null (map_option bl_lng (fd_beachLocation (q_formData item))),
      cd_beach_name = string_or_null (fd_beachName (q_formData item)),
      cd_brand_suggestion = fd_brand (q_formData item),
      cd_plastic_type_suggestion = fd_plasticType (q_formData item),
      cd_notes = string_or_null (fd_notes (q_formData item)),
      cd_status = ''pending'',
      cd_created_at = q_timestamp item\<rparr>"

definition syncSingleContribution ::
  "network \<Rightarrow> queued_contribution \<Rightarrow> object_store \<times> remote
     \<Rightarrow> string option \<times> object_store \<times> remote" where
  "syncSingleContribution net item sr =
     (let (store, r) = sr;
          store1 = updateQueueItemStatus (q_id item) Uploading None store;
          (u0, r0) = uploadFile net (getFile (productImage (q_images item))) r;
          (u1, r1) = upload_optional net (backsideImage (q_images item)) r0;
          (u2, r2) = upload_optional net (recyclingImage (q_images item)) r1;
          (u3, r3) = upload_optional net (manufacturerImage (q_images item)) r2;
          uploadedImages = [Some u0, u1, u2, u3]
      in (case rejection uploadedImages of
            Some e \<Rightarrow> (Some e, store1, r3)
          | None \<Rightarrow>
             (case db_insert net (contributionData net item uploadedImages) of
                Some e \<Rightarrow> (Some e, store1, r3)
              | None \<Rightarrow>
                  (None, updateQueueItemStatus (q_id item) Completed None store1,
                   r3\<lparr>inserted := inserted r3 @ [contributionData net item uploadedImages]\<rparr>))))"

record sync_stats =
  total :: nat
  completed :: nat
  failed :: nat
  current :: "string option"

text \<open>
  The state the sync manager works on: its module-level flag, \<open>navigator.onLine\<close>, the
  local store, the remote side, and what the progress listeners have been sent.
\<close>

record sync_state =
  isSyncing :: bool
  onLine :: bool
  local_store :: object_store
  remote_side :: remote
  notified :: "sync_stats list"

definition isOnline :: "sync_state \<Rightarrow> bool" where
  "isOnline st = onLine st"

definition notifySyncProgress :: "sync_stats \<Rightarrow> sync_state \<Rightarrow> sync_state" where
  "notifySyncProgress stats st = st\<lparr>notified := notified st @ [stats]\<rparr>"

text \<open>One turn of the \<open>for\<close> loop of \<open>syncQueue\<close>, with its try and catch.\<close>

definition sync_item ::
  "network \<Rightarrow> sync_stats \<times> sync_state \<Rightarrow> queued_contribution \<Rightarrow> sync_stats \<times> sync_state" where
  "sync_item net acc item =
     (let (stats, st) = acc;
          stats1 = stats\<lparr>current :=
              Some (case string_or_null (fd_beachName (q_formData item)) of
                      None \<Rightarrow> ''Unknown location'' | Some b \<Rightarrow> b)\<rparr>;
          st1 = notifySyncProgress stats1 st;
          (thrown, store2, r2) = syncSingleContribution net item (local_store st1, remote_side st1)
      in (case thrown of
            None \<Rightarrow>
             (let store3 = removeFromQueue (q_id item) store2;
                  stats2 = stats1\<lparr>completed := completed stats1 + 1\<rparr>
              in (stats2,
                  notifySyncProgress stats2 (st1\<lparr>local_store := store3, remote_side := r2\<rparr>)))
          | Some e \<Rightarrow>
             (let store3 = updateQueueItemStatus (q_id item) Failed (Some e) store2;
                  stats2 = stats1\<lparr>failed := failed stats1 + 1\<rparr>
              in (stats2,
                  notifySyncProgress stats2 (st1\<lparr>local_store := store3, remote_side := r2\<rparr>)))))"

definition selected :: "queued_contribution \<Rightarrow> bool" where
  "selected item = (q_status item = Pending \<or> q_status item = Failed)"

definition no_progress :: sync_stats where
  "no_progress = \<lparr>total = 0, completed = 0, failed = 0, current = None\<rparr>"

definition syncQueue :: "network \<Rightarrow> sync_state \<Rightarrow> sync_stats \<times> sync_state" where
  "syncQueue net st =
     (if isSyncing st then (no_progress, st)
      else if \<not> isOnline st then (no_progress, st)
      else
        let st1 = st\<lparr>isSyncing := True\<rparr>;
            queue = getOfflineQueue (local_store st1);
            pendingItems = filter selected queue;
            stats = \<lparr>total = length pendingItems, completed = 0, failed = 0, current = None\<rparr>
        in case foldl (sync_item net) (stats, st1) pendingItems of
             (stats', st2) \<Rightarrow> (stats', st2\<lparr>isSyncing := False\<rparr>))"

subsection \<open>Notions used in the statements\<close>

text \<open>
  What \<open>syncSingleContribution\<close> throws for an item under a given network, and what it
  leaves on the remote side; neither depends on the local store.
\<close>

definition sync_error :: "network \<Rightarrow> queued_contribution \<Rightarrow> string option" where
  "sync_error net item = fst (syncSingleContribution net item ([], \<lparr>bucket = [], inserted = []\<rparr>))"

definition remote_after :: "network \<Rightarrow> remote \<Rightarrow> queued_contribution \<Rightarrow> remote" where
  "remote_after net r item = snd (snd (syncSingleContribution net item ([], r)))"

text \<open>The state in the middle of a pass, after the first \<open>k\<close> selected items.\<close>

definition mid_pass :: "network \<Rightarrow> sync_state \<Rightarrow> nat \<Rightarrow> sync_state" where
  "mid_pass net st k =
     (let st1 = st\<lparr>isSyncing := True\<rparr>;
          pendingItems = filter selected (getOfflineQueue (local_store st1));
          stats = \<lparr>total = length pendingItems, completed = 0, failed = 0, current = None\<rparr>
      in snd (foldl (sync_item net) (stats, st1) (take k pendingItems)))"

text \<open>Several passes, one after the other, each under its own network conditions.\<close>

definition sync_passes :: "network list \<Rightarrow> sync_state \<Rightarrow> sync_state" where
  "sync_passes nets st = foldl (\<lambda>s net. snd (syncQueue net s)) st nets"

definition unique_ids :: "object_store \<Rightarrow> bool" where
  "unique_ids store = distinct (map q_id store)"

text \<open>
  What a pass leaves of a selected item: nothing when its upload and insert went through,
  otherwise the item marked as failed, with the error text when there is one.
\<close>

definition after_attempt :: "network \<Rightarrow> queued_contribution \<Rightarrow> queued_contribution option" where
  "after_attempt net q =
     (case sync_error net q of
        None \<Rightarrow> None
      | Some e \<Rightarrow>
          Some (q\<lparr>q_status := Failed, q_error := (if e = [] then q_error q else Some e),
                  q_retryCount := q_retryCount q + 1\<rparr>))"

text \<open>Two states of the sync manager that agree on everything but the local store.\<close>

definition same_but_store :: "sync_state \<Rightarrow> sync_state \<Rightarrow> bool" where
  "same_but_store a b \<longleftrightarrow>
     isSyncing a = isSyncing b \<and> onLine a = onLine b \<and> remote_side a = remote_side b
     \<and> notified a = notified b"

subsection \<open>A small queue for the concrete runs\<close>

definition photo :: "string \<Rightarrow> image" where
  "photo n = \<lparr>img_blob = \<lparr>blob_bytes = [255, 216, 255], blob_type = ''image/jpeg''\<rparr>, img_name = n\<rparr>"

definition sample_form :: form_data where
  "sample_form =
     \<lparr>fd_brand = ''Acme'', fd_plasticType = ''PET'', fd_beachName = Some ''North Beach'',
      fd_notes = None, fd_location = \<lparr>lat = 12, lng = 77\<rparr>, fd_beachLocation = None\<rparr>"

definition queued :: "string \<Rightarrow> string \<Rightarrow> queue_status \<Rightarrow> nat \<Rightarrow> queued_contribution" where
  "queued i n st k =
     \<lparr>q_id = i, q_timestamp = 1700000000000, q_formData = sample_form,
      q_images = \<lparr>productImage = photo n, backsideImage = Some (photo ''back.jpg''),
                  recyclingImage = None, manufacturerImage = None\<rparr>,
      q_status = st, q_retryCount = k, q_error = None\<rparr>"

text \<open>
  Three items to sync, the second of which failed once before, and one left in
  \<open>uploading\<close> by an interrupted pass.
\<close>

definition sample_queue :: object_store where
  "sample_queue =
     [queued ''offline_1_a'' ''one.jpg'' Pending 0,
      queued ''offline_2_b'' ''two.jpg'' Failed 1,
      queued ''offline_3_c'' ''three.jpg'' Pending 0,
      queued ''offline_4_d'' ''four.jpg'' Uploading 0]"

text \<open>A network on which the upload of \<open>two.jpg\<close> fails and everything else goes through.\<close>

definition sample_network :: network where
  "sample_network =
     \<lparr>storage_upload = (\<lambda>f. if file_name f = ''two.jpg''
                            then Inl ''StorageError: upload failed''
                            else Inr (''https://cdn.example/'' @ file_name f)),
      db_insert = (\<lambda>row. None),
      auth_user = Some ''user-7''\<rparr>"

definition idle_state :: sync_state where
  "idle_state =
     \<lparr>isSyncing = False, onLine = True, local_store = sample_queue,
      remote_side = \<lparr>bucket = [], inserted = []\<rparr>, notified = []\<rparr>"

section \<open>Properties of the classification engine\<close>

subsection \<open>Rows keyed by a unique column\<close>

lemma length_filter_key_distinct:
  "distinct (map f xs) \<Longrightarrow> x \<in> set xs \<Longrightarrow> length (filter (\<lambda>c. f c = f x) xs) = 1"
proof (induction xs)
  case Nil
  then show ?case by simp
next
  case (Cons y ys)
  show ?case
  proof (cases "y = x")
    case True
    have "\<forall>c\<in>set ys. f c \<noteq> f x"
      using Cons.prems(1) True by (metis distinct.simps(2) image_eqI list.simps(9) set_map)
    then have "filter (\<lambda>c. f c = f x) ys = []"
      by (simp add: filter_empty_conv)
    then show ?thesis using True by simp
  next
    case False
    then have "x \<in> set ys" using Cons.prems(2) by simp
    moreover have "f y \<noteq> f x" using Cons.prems(1) \<open>x \<in> set ys\<close> by auto
    ultimately show ?thesis using Cons by simp
  qed
qed

lemma find_Some_key: "find (\<lambda>c. f c = k) xs = Some x \<Longrightarrow> x \<in> set xs \<and> f x = k"
  by (auto simp: find_Some_iff)

lemma find_None_key: "find (\<lambda>c. f c = k) xs = None \<Longrightarrow> filter (\<lambda>c. f c = k) xs = []"
  by (auto simp: find_None_iff filter_empty_conv)

lemma do_update_key [simp]: "cl_contribution_id (do_update s e c) = cl_contribution_id c"
  by (simp add: do_update_def)

lemma excluded_row_key [simp]: "cl_contribution_id (excluded_row s cid a b m ad) = cid"
  by (simp add: excluded_row_def)

subsection \<open>The upsert\<close>

lemma upsert_one_row:
  assumes "unique_contribution_id rows" "cl_contribution_id e = cid"
  shows "length (rows_for cid (on_conflict_do_update s cid e rows)) = 1"
proof (cases "find (\<lambda>c. cl_contribution_id c = cid) rows")
  case None
  then show ?thesis
    using assms(2) by (simp add: find_None_key on_conflict_do_update_def rows_for_def)
next
  case (Some old)
  then have old: "old \<in> set rows" "cl_contribution_id old = cid"
    using find_Some_key[of cl_contribution_id cid rows old] by auto
  have "filter (\<lambda>c. cl_contribution_id c = cid)
          (map (\<lambda>c. if cl_contribution_id c = cid then do_update s e c else c) rows)
        = map (do_update s e) (filter (\<lambda>c. cl_contribution_id c = cid) rows)"
    by (induction rows) auto
  moreover have "length (filter (\<lambda>c. cl_contribution_id c = cid) rows) = 1"
    using length_filter_key_distinct[of cl_contribution_id rows old] assms(1) old
    by (simp add: unique_contribution_id_def)
  ultimately show ?thesis
    using Some by (simp add: on_conflict_do_update_def rows_for_def)
qed

lemma upsert_other_rows:
  assumes "cl_contribution_id e = cid" "other \<noteq> cid"
  shows "rows_for other (on_conflict_do_update s cid e rows) = rows_for other rows"
proof (cases "find (\<lambda>c. cl_contribution_id c = cid) rows")
  case None
  then show ?thesis using assms by (simp add: on_conflict_do_update_def rows_for_def)
next
  case (Some old)
  have "filter (\<lambda>c. cl_contribution_id c = other)
          (map (\<lambda>c. if cl_contribution_id c = cid then do_update s e c else c) rows)
        = filter (\<lambda>c. cl_contribution_id c = other) rows"
    using assms(2) by (induction rows) auto
  then show ?thesis using Some by (simp add: on_conflict_do_update_def rows_for_def)
qed

lemma upsert_keeps_unique:
  assumes "unique_contribution_id rows" "cl_contribution_id e = cid"
  shows "unique_contribution_id (on_conflict_do_update s cid e rows)"
proof (cases "find (\<lambda>c. cl_contribution_id c = cid) rows")
  case None
  then have "cid \<notin> cl_contribution_id ` set rows" by (auto simp: find_None_iff)
  then show ?thesis
    using None assms by (simp add: on_conflict_do_update_def unique_contribution_id_def)
next
  case (Some old)
  have "(cl_contribution_id \<circ>
          (\<lambda>c. if cl_contribution_id c = cid then do_update s e c else c)) = cl_contribution_id"
    by (rule ext) simp
  then show ?thesis
    using Some assms(1) by (simp add: on_conflict_do_update_def unique_contribution_id_def)
qed

lemma upsert_classification_Inr:
  assumes "upsert_classification s cid a d = Inr (k, d2)"
  shows "\<exists>brand manufacturer admin.
      p_brand a = Some brand \<and> p_manufacturer a = Some manufacturer \<and> p_admin_id a = Some admin \<and>
      d2 = d\<lparr>classifications :=
         on_conflict_do_update s cid (excluded_row s cid a brand manufacturer admin)
           (classifications d)\<rparr>"
  using assms
  by (auto simp: upsert_classification_def Let_def fk_ok_def split: option.splits if_splits)

lemma insert_review_history_Inr:
  assumes "insert_review_history s cid admin action prev new changes reason d = Inr d3"
  shows "\<exists>adm. admin = Some adm \<and>
     d3 = d\<lparr>review_history := review_history d @
             [\<lparr>rh_id = new_history_id s, rh_contribution_id = cid, rh_admin_id = adm,
               rh_action = action, rh_previous_status = prev, rh_new_status = Some new,
               rh_changes = changes, rh_reason = reason, rh_created_at = now s\<rparr>]\<rparr>"
  using assms by (auto simp: insert_review_history_def split: option.splits if_splits)

subsection \<open>What a successful call has done\<close>

lemma classify_body_Inr:
  assumes "classify_body s a d = Inr (r, d')"
  shows "\<exists>cid old e h.
     p_contribution_id a = Some cid \<and> select_status (contributions d) (Some cid) = Some old \<and>
     cl_contribution_id e = cid \<and>
     rh_contribution_id h = cid \<and>
     rh_action h = (if old = ''classified'' then ''reclassified'' else ''classified'') \<and>
     rh_previous_status h = Some old \<and> rh_new_status h = Some ''classified'' \<and>
     previous_status r = Some old \<and> success r \<and>
     d' = d\<lparr>contributions := contributions (with_status cid ''classified'' d),
            classifications := on_conflict_do_update s cid e (classifications d),
            review_history := review_history d @ [h]\<rparr>"
proof -
  from assms obtain cid old where
    c: "p_contribution_id a = Some cid" "select_status (contributions d) (Some cid) = Some old"
    by (auto simp: classify_body_def Let_def split: if_splits option.splits)
  let ?d1 = "d\<lparr>contributions := contributions (with_status cid ''classified'' d)\<rparr>"
  from assms c obtain k d2 where
    u: "upsert_classification s cid a ?d1 = Inr (k, d2)"
    by (auto simp: classify_body_def Let_def with_status_def split: if_splits option.splits sum.splits)
  from upsert_classification_Inr[OF u] obtain brand manufacturer admin where
    d2: "d2 = ?d1\<lparr>classifications :=
         on_conflict_do_update s cid (excluded_row s cid a brand manufacturer admin)
           (classifications ?d1)\<rparr>"
    by blast
  from assms c u obtain d3 chg where
    h: "insert_review_history s cid (p_admin_id a)
          (if is_true (sql_eq (Some old) ''classified'') then ''reclassified'' else ''classified'')
          (Some old) ''classified'' chg None d2 = Inr d3"
    and r: "r = \<lparr>success = True, classification_id = Some k,
                  previous_status = Some old, error = None\<rparr>" "d' = d3"
    by (auto simp: classify_body_def Let_def with_status_def split: if_splits option.splits sum.splits)
  from insert_review_history_Inr[OF h] obtain adm where
    d3: "d3 = d2\<lparr>review_history := review_history d2 @
             [\<lparr>rh_id = new_history_id s, rh_contribution_id = cid, rh_admin_id = adm,
               rh_action = (if is_true (sql_eq (Some old) ''classified'')
                            then ''reclassified'' else ''classified''),
               rh_previous_status = Some old, rh_new_status = Some ''classified'',
               rh_changes = chg, rh_reason = None, rh_created_at = now s\<rparr>]\<rparr>"
    by blast
  show ?thesis
    apply (rule exI[of _ cid], rule exI[of _ old])
    apply (rule exI[of _ "excluded_row s cid a brand manufacturer admin"])
    apply (rule exI[of _ "\<lparr>rh_id = new_history_id s, rh_contribution_id = cid, rh_admin_id = adm,
               rh_action = (if is_true (sql_eq (Some old) ''classified'')
                            then ''reclassified'' else ''classified''),
               rh_previous_status = Some old, rh_new_status = Some ''classified'',
               rh_changes = chg, rh_reason = None, rh_created_at = now s\<rparr>"])
    using c r d2 d3 by (simp add: is_true_def sql_eq_def)
qed

lemma classify_success_body:
  assumes "classify_contribution s a d = (r, d')" "success r"
  shows "classify_body s a d = Inr (r, d')"
  using assms by (auto simp: classify_contribution_def split: sum.splits)

lemma classify_failure_rolls_back:
  assumes "\<not> success (fst (classify_contribution s a d))"
  shows "snd (classify_contribution s a d) = d"
proof (cases "classify_body s a d")
  case (Inl e)
  then show ?thesis by (simp add: classify_contribution_def)
next
  case (Inr p)
  obtain r d' where p: "p = (r, d')" by (cases p)
  with Inr classify_body_Inr[of s a d r d'] have "success r" by blast
  with Inr p assms show ?thesis by (simp add: classify_contribution_def)
qed

lemma reject_body_Inr:
  assumes "reject_body s a d = Inr (r, d')"
  shows "\<exists>cid old h.
     r_contribution_id a = Some cid \<and> select_status (contributions d) (Some cid) = Some old \<and>
     stamp_columns d \<and>
     rh_contribution_id h = cid \<and> rh_action h = ''rejected'' \<and> rh_reason h = r_reason a \<and>
     rh_previous_status h = Some old \<and> rh_new_status h = Some ''rejected'' \<and>
     previous_status r = Some old \<and> success r \<and>
     d' = d\<lparr>contributions :=
              map (\<lambda>r. if c_id r = cid
                   then r\<lparr>c_status := Some ''rejected'', c_classified_by := r_admin_id a,
                          c_classified_at := Some (now s), c_notes := r_reason a\<rparr>
                   else r) (contributions d),
            classifications := filter (\<lambda>c. cl_contribution_id c \<noteq> cid) (classifications d),
            review_history := review_history d @ [h]\<rparr>"
proof -
  from assms obtain cid old where
    c: "r_contribution_id a = Some cid" "select_status (contributions d) (Some cid) = Some old"
       "stamp_columns d"
    by (auto simp: reject_body_def Let_def split: if_splits option.splits)
  let ?d2 = "d\<lparr>contributions :=
              map (\<lambda>r. if c_id r = cid
                   then r\<lparr>c_status := Some ''rejected'', c_classified_by := r_admin_id a,
                          c_classified_at := Some (now s), c_notes := r_reason a\<rparr>
                   else r) (contributions d),
            classifications := filter (\<lambda>c. cl_contribution_id c \<noteq> cid) (classifications d)\<rparr>"
  from assms c obtain d3 where
    h: "insert_review_history s cid (r_admin_id a) ''rejected'' (Some old) ''rejected''
          None (r_reason a) ?d2 = Inr d3"
    and r: "r = \<lparr>success = True, classification_id = None,
                  previous_status = Some old, error = None\<rparr>" "d' = d3"
    by (auto simp: reject_body_def Let_def split: if_splits option.splits sum.splits)
  from insert_review_history_Inr[OF h] obtain adm where
    d3: "d3 = ?d2\<lparr>review_history := review_history ?d2 @
             [\<lparr>rh_id = new_history_id s, rh_contribution_id = cid, rh_admin_id = adm,
               rh_action = ''rejected'', rh_previous_status = Some old,
               rh_new_status = Some ''rejected'', rh_changes = None,
               rh_reason = r_reason a, rh_created_at = now s\<rparr>]\<rparr>"
    by blast
  show ?thesis
    apply (rule exI[of _ cid], rule exI[of _ old])
    apply (rule exI[of _ "\<lparr>rh_id = new_history_id s, rh_contribution_id = cid, rh_admin_id = adm,
               rh_action = ''rejected'', rh_previous_status = Some old,
               rh_new_status = Some ''rejected'', rh_changes = None,
               rh_reason = r_reason a, rh_created_at = now s\<rparr>"])
    using c r d3 by simp
qed

lemma reject_success_body:
  assumes "reject_contribution s a d = (r, d')" "success r"
  shows "reject_body s a d = Inr (r, d')"
  using assms by (auto simp: reject_contribution_def split: sum.splits)

lemma reject_failure_rolls_back:
  assumes "\<not> success (fst (reject_contribution s a d))"
  shows "snd (reject_contribution s a d) = d"
proof (cases "reject_body s a d")
  case (Inl e)
  then show ?thesis by (simp add: reject_contribution_def)
next
  case (Inr p)
  obtain r d' where p: "p = (r, d')" by (cases p)
  with Inr reject_body_Inr[of s a d r d'] have "success r" by blast
  with Inr p assms show ?thesis by (simp add: reject_contribution_def)
qed


subsection \<open>Reading the status back\<close>

lemma find_map_same_key:
  assumes "\<And>r. c_id (f r) = c_id r"
  shows "find (\<lambda>r. c_id r = cid) (map (\<lambda>r. if c_id r = cid then f r else r) rows)
       = map_option f (find (\<lambda>r. c_id r = cid) rows)"
  using assms by (induction rows) auto

lemma select_status_after_update:
  assumes "select_status rows (Some cid) = Some old" "\<And>r. c_id (f r) = c_id r"
      and "\<And>r. c_status (f r) = Some st"
  shows "select_status (map (\<lambda>r. if c_id r = cid then f r else r) rows) (Some cid) = Some st"
proof -
  from assms(1) obtain r where "find (\<lambda>r. c_id r = cid) rows = Some r"
    by (auto simp: select_status_def split: option.splits)
  then show ?thesis
    using find_map_same_key[of f cid rows, OF assms(2)] assms(3)
    by (simp add: select_status_def)
qed

lemma select_status_with_status:
  assumes "cid \<in> c_id ` set (contributions d)"
  shows "select_status (contributions (with_status cid st d)) (Some cid) = Some st"
proof -
  from assms obtain r where "find (\<lambda>r. c_id r = cid) (contributions d) = Some r"
    by (cases "find (\<lambda>r. c_id r = cid) (contributions d)") (auto simp: find_None_iff)
  then show ?thesis
    using find_map_same_key[of "\<lambda>r. r\<lparr>c_status := Some st\<rparr>" cid "contributions d"]
    by (simp add: select_status_def with_status_def)
qed

lemma with_status_ids: "map c_id (contributions (with_status cid st d)) = map c_id (contributions d)"
  by (simp add: with_status_def comp_def if_distrib cong: if_cong)

lemma with_status_other_tables [simp]:
  "classifications (with_status cid st d) = classifications d"
  "review_history (with_status cid st d) = review_history d"
  "auth_users (with_status cid st d) = auth_users d"
  "beaches (with_status cid st d) = beaches d"
  "companies (with_status cid st d) = companies d"
  "stamp_columns (with_status cid st d) = stamp_columns d"
  by (simp_all add: with_status_def)

subsection \<open>When a call succeeds\<close>

lemma upsert_classification_isl:
  "isl (upsert_classification s cid a d) \<longleftrightarrow>
     \<not> (p_brand a \<noteq> None \<and> p_manufacturer a \<noteq> None \<and> p_admin_id a \<noteq> None \<and>
        \<not> (find (\<lambda>c. cl_contribution_id c = cid) (classifications d) = None
           \<and> new_classification_id s \<in> set (map cl_id (classifications d))) \<and>
        fk_ok (p_admin_id a) (auth_users d) \<and> fk_ok (p_beach_id a) (beaches d) \<and>
        fk_ok (p_company_id a) (companies d))"
  by (auto simp: upsert_classification_def Let_def excluded_row_def split: option.splits)

lemma insert_review_history_isl:
  "isl (insert_review_history s cid admin action prev new changes reason d) \<longleftrightarrow>
     \<not> (admin \<noteq> None \<and> fk_ok admin (auth_users d) \<and>
        new_history_id s \<notin> set (map rh_id (review_history d)))"
  by (auto simp: insert_review_history_def fk_ok_def split: option.splits)

text \<open>The conditions under which each procedure succeeds; none of them reads the status.\<close>

lemma classify_success_iff:
  "success (fst (classify_contribution s a d)) \<longleftrightarrow>
     \<not> is_true (sql_not (is_admin (caller s))) \<and>
     \<not> is_true (sql_not_in (p_confidence_level a) [''high'', ''medium'', ''low'']) \<and>
     select_status (contributions d) (p_contribution_id a) \<noteq> None \<and>
     p_brand a \<noteq> None \<and> p_manufacturer a \<noteq> None \<and> p_admin_id a \<noteq> None \<and>
     \<not> (find (\<lambda>c. cl_contribution_id c = the (p_contribution_id a)) (classifications d) = None
        \<and> new_classification_id s \<in> set (map cl_id (classifications d))) \<and>
     fk_ok (p_admin_id a) (auth_users d) \<and> fk_ok (p_beach_id a) (beaches d) \<and>
     fk_ok (p_company_id a) (companies d) \<and>
     new_history_id s \<notin> set (map rh_id (review_history d))"
proof (cases "is_true (sql_not (is_admin (caller s)))
     \<or> is_true (sql_not_in (p_confidence_level a) [''high'', ''medium'', ''low''])
     \<or> select_status (contributions d) (p_contribution_id a) = None")
  case True
  then show ?thesis
    by (auto simp: classify_contribution_def classify_body_def Let_def select_status_def
        split: option.splits)
next
  case False
  then obtain cid old where
    c: "p_contribution_id a = Some cid" "select_status (contributions d) (Some cid) = Some old"
    by (cases "p_contribution_id a") (auto simp: select_status_def)
  let ?d1 = "d\<lparr>contributions :=
        map (\<lambda>r. if c_id r = cid then r\<lparr>c_status := Some ''classified''\<rparr> else r)
          (contributions d)\<rparr>"
  show ?thesis
  proof (cases "upsert_classification s cid a ?d1")
    case (Inl e)
    then have "isl (upsert_classification s cid a ?d1)" by simp
    then have "\<not> (p_brand a \<noteq> None \<and> p_manufacturer a \<noteq> None \<and> p_admin_id a \<noteq> None \<and>
        \<not> (find (\<lambda>c. cl_contribution_id c = cid) (classifications d) = None
           \<and> new_classification_id s \<in> set (map cl_id (classifications d))) \<and>
        fk_ok (p_admin_id a) (auth_users d) \<and> fk_ok (p_beach_id a) (beaches d) \<and>
        fk_ok (p_company_id a) (companies d))"
      unfolding upsert_classification_isl by simp
    moreover have "\<not> success (fst (classify_contribution s a d))"
      using False c Inl by (simp add: classify_contribution_def classify_body_def Let_def)
    ultimately show ?thesis using c by auto
  next
    case (Inr p)
    obtain k d2 where p: "p = (k, d2)" by (cases p)
    from upsert_classification_Inr[of s cid a ?d1 k d2] Inr p
    have d2: "auth_users d2 = auth_users d" "review_history d2 = review_history d" by auto
    have ok: "\<not> isl (upsert_classification s cid a ?d1)" using Inr by simp
    show ?thesis
    proof (cases "insert_review_history s cid (p_admin_id a)
                           (if is_true (sql_eq (Some old) ''classified'')
                            then ''reclassified'' else ''classified'')
                           (Some old) ''classified''
                           (Some (JObject
                              [(''brand'', json_text (p_brand a)),
                               (''manufacturer'', json_text (p_manufacturer a)),
                               (''plastic_type'', json_text (p_plastic_type a)),
                               (''product_type'', json_text (p_product_type a)),
                               (''beach_id'', json_int (p_beach_id a)),
                               (''confidence_level'', json_text (p_confidence_level a))]))
                           None d2")
      case (Inl e)
      then have "isl (insert_review_history s cid (p_admin_id a)
                           (if is_true (sql_eq (Some old) ''classified'')
                            then ''reclassified'' else ''classified'')
                           (Some old) ''classified''
                           (Some (JObject
                              [(''brand'', json_text (p_brand a)),
                               (''manufacturer'', json_text (p_manufacturer a)),
                               (''plastic_type'', json_text (p_plastic_type a)),
                               (''product_type'', json_text (p_product_type a)),
                               (''beach_id'', json_int (p_beach_id a)),
                               (''confidence_level'', json_text (p_confidence_level a))]))
                           None d2)" by simp
      then have "\<not> (p_admin_id a \<noteq> None \<and> fk_ok (p_admin_id a) (auth_users d) \<and>
          new_history_id s \<notin> set (map rh_id (review_history d)))"
        unfolding insert_review_history_isl d2 .
      moreover have "\<not> success (fst (classify_contribution s a d))"
        using False c Inr p Inl by (simp add: classify_contribution_def classify_body_def Let_def)
      ultimately show ?thesis by blast
    next
      case (Inr d3)
      then have "\<not> isl (insert_review_history s cid (p_admin_id a)
                           (if is_true (sql_eq (Some old) ''classified'')
                            then ''reclassified'' else ''classified'')
                           (Some old) ''classified''
                           (Some (JObject
                              [(''brand'', json_text (p_brand a)),
                               (''manufacturer'', json_text (p_manufacturer a)),
                               (''plastic_type'', json_text (p_plastic_type a)),
                               (''product_type'', json_text (p_product_type a)),
                               (''beach_id'', json_int (p_beach_id a)),
                               (''confidence_level'', json_text (p_confidence_level a))]))
                           None d2)" by simp
      then have h: "p_admin_id a \<noteq> None \<and> fk_ok (p_admin_id a) (auth_users d) \<and>
          new_history_id s \<notin> set (map rh_id (review_history d))"
        unfolding insert_review_history_isl d2 by blast
      have "success (fst (classify_contribution s a d))"
        using False c \<open>upsert_classification s cid a ?d1 = Inr p\<close> p Inr
        by (simp add: classify_contribution_def classify_body_def Let_def)
      moreover have "p_brand a \<noteq> None \<and> p_manufacturer a \<noteq> None \<and> p_admin_id a \<noteq> None \<and>
        \<not> (find (\<lambda>c. cl_contribution_id c = cid) (classifications d) = None
           \<and> new_classification_id s \<in> set (map cl_id (classifications d))) \<and>
        fk_ok (p_admin_id a) (auth_users d) \<and> fk_ok (p_beach_id a) (beaches d) \<and>
        fk_ok (p_company_id a) (companies d)"
        using ok unfolding upsert_classification_isl by simp
      ultimately show ?thesis
        using False c h by simp
    qed
  qed
qed

lemma reject_success_iff:
  "success (fst (reject_contribution s b d)) \<longleftrightarrow>
     \<not> is_true (sql_not (is_admin (caller s))) \<and>
     select_status (contributions d) (r_contribution_id b) \<noteq> None \<and>
     stamp_columns d \<and> r_admin_id b \<noteq> None \<and> fk_ok (r_admin_id b) (auth_users d) \<and>
     new_history_id s \<notin> set (map rh_id (review_history d))"
proof (cases "is_true (sql_not (is_admin (caller s)))
     \<or> select_status (contributions d) (r_contribution_id b) = None \<or> \<not> stamp_columns d
     \<or> \<not> fk_ok (r_admin_id b) (auth_users d)")
  case True
  then show ?thesis
    by (auto simp: reject_contribution_def reject_body_def Let_def select_status_def
        split: option.splits)
next
  case False
  then obtain cid old where
    c: "r_contribution_id b = Some cid" "select_status (contributions d) (Some cid) = Some old"
    by (cases "r_contribution_id b") (auto simp: select_status_def)
  let ?d2 = "d\<lparr>contributions :=
              map (\<lambda>r. if c_id r = cid
                   then r\<lparr>c_status := Some ''rejected'', c_classified_by := r_admin_id b,
                          c_classified_at := Some (now s), c_notes := r_reason b\<rparr>
                   else r) (contributions d),
            classifications := filter (\<lambda>c. cl_contribution_id c \<noteq> cid) (classifications d)\<rparr>"
  let ?ins = "insert_review_history s cid (r_admin_id b) ''rejected'' (Some old) ''rejected''
          None (r_reason b) ?d2"
  have iff: "isl ?ins \<longleftrightarrow> \<not> (r_admin_id b \<noteq> None \<and> fk_ok (r_admin_id b) (auth_users d) \<and>
          new_history_id s \<notin> set (map rh_id (review_history d)))"
    unfolding insert_review_history_isl by simp
  show ?thesis
  proof (cases ?ins)
    case (Inl e)
    then have "isl ?ins" by simp
    moreover have "\<not> success (fst (reject_contribution s b d))"
      using False c Inl by (simp add: reject_contribution_def reject_body_def Let_def)
    ultimately show ?thesis using iff by blast
  next
    case (Inr d3)
    then have "\<not> isl ?ins" by simp
    moreover have "success (fst (reject_contribution s b d))"
      using False c Inr by (simp add: reject_contribution_def reject_body_def Let_def)
    ultimately show ?thesis using iff False c by simp
  qed
qed

text \<open>
  On the schema the refactor migration leaves behind, \<open>reject_contribution\<close> cannot
  succeed: its UPDATE still names the dropped columns.
\<close>

lemma reject_after_column_drop:
  "\<not> stamp_columns d \<Longrightarrow> \<not> success (fst (reject_contribution s b d))"
  by (simp add: reject_success_iff)

subsection \<open>The admin guard\<close>

lemma is_admin_cases:
  "is_admin j = (if app_metadata_role j = Some ''admin'' then Some True
                 else map_option (\<lambda>r. r = ''admin'') (user_metadata_role j))"
  by (auto simp: is_admin_def is_true_def sql_eq_def Let_def)

text \<open>A caller for whom \<open>is_admin()\<close> returns FALSE is turned away by both procedures.\<close>

lemma classify_denied_when_false:
  assumes "is_admin (caller s) = Some False"
  shows "classify_contribution s a d =
     (\<lparr>success = False, classification_id = None, previous_status = None,
       error = Some (RaiseException ''Access denied: Admin privileges required'')\<rparr>, d)"
  using assms
  by (simp add: classify_contribution_def classify_body_def is_true_def sql_not_def)

lemma reject_denied_when_false:
  assumes "is_admin (caller s) = Some False"
  shows "reject_contribution s b d =
     (\<lparr>success = False, classification_id = None, previous_status = None,
       error = Some (RaiseException ''Access denied: Admin privileges required'')\<rparr>, d)"
  using assms
  by (simp add: reject_contribution_def reject_body_def is_true_def sql_not_def)

text \<open>A NULL from \<open>is_admin()\<close> does not trigger \<open>IF NOT is_admin()\<close>.\<close>

lemma guard_skipped_when_null:
  "is_admin j = None \<Longrightarrow> \<not> is_true (sql_not (is_admin j))"
  by (simp add: is_true_def sql_not_def)

lemma is_admin_null_iff:
  "is_admin j = None \<longleftrightarrow> app_metadata_role j \<noteq> Some ''admin'' \<and> user_metadata_role j = None"
  by (simp add: is_admin_cases)

lemmas engine_defs =
  classify_contribution_def classify_body_def reject_contribution_def reject_body_def
  upsert_classification_def on_conflict_do_update_def returning_id_def excluded_row_def
  do_update_def insert_review_history_def select_status_def fk_ok_def
  is_admin_def is_admin_rls_def is_true_def sql_eq_def sql_not_def sql_not_in_def
  with_status_def drop_stamp_columns_def unique_contribution_id_def rows_for_def
  text_of_def json_text_def json_int_def

lemmas sample_defs =
  sample_db_def admin_session_def plain_user_session_def sample_classify_def sample_reject_def
  final_schema_db_def later_admin_session_def admin_user_def sample_form_data_def


subsection \<open>The row an upsert leaves\<close>

lemma filter_key_find:
  "distinct (map f xs) \<Longrightarrow> find (\<lambda>c. f c = k) xs = Some x \<Longrightarrow> filter (\<lambda>c. f c = k) xs = [x]"
proof (induction xs)
  case Nil
  then show ?case by simp
next
  case (Cons y ys)
  show ?case
  proof (cases "f y = k")
    case True
    then have "x = y" using Cons.prems(2) by simp
    moreover have "\<forall>c\<in>set ys. f c \<noteq> k"
      using Cons.prems(1) True by (metis distinct.simps(2) image_eqI list.simps(9) set_map)
    then have "filter (\<lambda>c. f c = k) ys = []"
      by (simp add: filter_empty_conv)
    ultimately show ?thesis using True by simp
  next
    case False
    then show ?thesis using Cons by simp
  qed
qed

lemma upsert_row_content:
  assumes "unique_contribution_id rows" "cl_contribution_id e = cid"
  shows "rows_for cid (on_conflict_do_update s cid e rows) =
     [case find (\<lambda>c. cl_contribution_id c = cid) rows of
        None \<Rightarrow> e | Some old \<Rightarrow> do_update s e old]"
proof (cases "find (\<lambda>c. cl_contribution_id c = cid) rows")
  case None
  then show ?thesis
    using assms(2) by (simp add: find_None_key on_conflict_do_update_def rows_for_def)
next
  case (Some old)
  have "filter (\<lambda>c. cl_contribution_id c = cid)
          (map (\<lambda>c. if cl_contribution_id c = cid then do_update s e c else c) rows)
        = map (do_update s e) (filter (\<lambda>c. cl_contribution_id c = cid) rows)"
    by (induction rows) auto
  moreover have "filter (\<lambda>c. cl_contribution_id c = cid) rows = [old]"
    using filter_key_find[of cl_contribution_id rows cid old] assms(1) Some
    by (simp add: unique_contribution_id_def)
  ultimately show ?thesis
    using Some by (simp add: on_conflict_do_update_def rows_for_def)
qed

text \<open>Added or overwritten, the row carries every value of the call.\<close>

lemma upserted_row_fields:
  assumes "row = (case x of None \<Rightarrow> excluded_row s cid a b m ad
                  | Some old \<Rightarrow> do_update s (excluded_row s cid a b m ad) old)"
  shows "cl_brand row = b \<and> cl_manufacturer row = m \<and> cl_classified_by row = ad
       \<and> cl_plastic_type row = p_plastic_type a \<and> cl_admin_notes row = p_admin_notes a
       \<and> cl_confidence_level row = p_confidence_level a
       \<and> cl_product_type row = p_product_type a
       \<and> cl_beach_id row = p_beach_id a \<and> cl_company_id row = p_company_id a
       \<and> cl_beach_latitude row = p_beach_latitude a
       \<and> cl_beach_longitude row = p_beach_longitude a
       \<and> cl_classified_at row = now s \<and> cl_updated_at row = now s"
  using assms by (cases x) (simp_all add: excluded_row_def do_update_def)

lemma classify_body_classifications:
  assumes "classify_body s a d = Inr (r, d')"
  shows "\<exists>cid brand manufacturer admin.
     p_contribution_id a = Some cid \<and> p_brand a = Some brand \<and>
     p_manufacturer a = Some manufacturer \<and> p_admin_id a = Some admin \<and>
     classifications d' =
       on_conflict_do_update s cid (excluded_row s cid a brand manufacturer admin)
         (classifications d)"
proof -
  from assms obtain cid old where
    c: "p_contribution_id a = Some cid" "select_status (contributions d) (Some cid) = Some old"
    by (auto simp: classify_body_def Let_def split: if_splits option.splits)
  let ?d1 = "d\<lparr>contributions := contributions (with_status cid ''classified'' d)\<rparr>"
  from assms c obtain k d2 where
    u: "upsert_classification s cid a ?d1 = Inr (k, d2)"
    by (auto simp: classify_body_def Let_def with_status_def split: if_splits option.splits sum.splits)
  from upsert_classification_Inr[OF u] obtain brand manufacturer admin where
    p: "p_brand a = Some brand" "p_manufacturer a = Some manufacturer" "p_admin_id a = Some admin"
    and d2: "d2 = ?d1\<lparr>classifications :=
         on_conflict_do_update s cid (excluded_row s cid a brand manufacturer admin)
           (classifications ?d1)\<rparr>"
    by blast
  from assms c u obtain d3 act chg where
    h: "insert_review_history s cid (p_admin_id a) act (Some old) ''classified'' chg None d2
          = Inr d3" and r: "d' = d3"
    by (auto simp: classify_body_def Let_def with_status_def split: if_splits option.splits sum.splits)
  from insert_review_history_Inr[OF h] have "classifications d3 = classifications d2"
    by auto
  then show ?thesis using c p d2 r by simp
qed

subsection \<open>The stored procedure classify_contribution\<close>

text \<open>
  Whenever the stored procedure \<open>classify_contribution\<close> returns \<open>success = true\<close> for a
  contribution, exactly one classification row exists for that contribution afterwards,
  and it holds the values of the call, whether it was added or overwritten; the UNIQUE
  key on \<open>contribution_id\<close> still holds and the rows of every other contribution are what
  they were; and exactly one row has been appended to the review history, its action
  \<open>reclassified\<close> if the status read at the start of the call was \<open>classified\<close>, and
  \<open>classified\<close> otherwise.
\<close>

lemma classify_contribution_success_effects:
  assumes "unique_contribution_id (classifications d)"
      and "p_contribution_id a = Some cid"
      and "classify_contribution s a d = (r, d')"
      and "success r"
  shows "select_status (contributions d) (Some cid) \<noteq> None
       \<and> (\<exists>row. rows_for cid (classifications d') = [row]
             \<and> Some (cl_brand row) = p_brand a
             \<and> Some (cl_manufacturer row) = p_manufacturer a
             \<and> Some (cl_classified_by row) = p_admin_id a
             \<and> cl_plastic_type row = p_plastic_type a
             \<and> cl_admin_notes row = p_admin_notes a
             \<and> cl_confidence_level row = p_confidence_level a
             \<and> cl_product_type row = p_product_type a
             \<and> cl_beach_id row = p_beach_id a \<and> cl_company_id row = p_company_id a
             \<and> cl_beach_latitude row = p_beach_latitude a
             \<and> cl_beach_longitude row = p_beach_longitude a
             \<and> cl_classified_at row = now s \<and> cl_updated_at row = now s)
       \<and> unique_contribution_id (classifications d')
       \<and> (\<forall>other. other \<noteq> cid \<longrightarrow>
             rows_for other (classifications d') = rows_for other (classifications d))
       \<and> (\<exists>h. review_history d' = review_history d @ [h] \<and> rh_contribution_id h = cid \<and>
              rh_action h =
                (if select_status (contributions d) (Some cid) = Some ''classified''
                 then ''reclassified'' else ''classified''))"
proof -
  note body = classify_success_body[OF assms(3,4)]
  from classify_body_Inr[OF body] assms(2)
  obtain old e h where
    f: "select_status (contributions d) (Some cid) = Some old" "cl_contribution_id e = cid"
       "rh_contribution_id h = cid"
       "rh_action h = (if old = ''classified'' then ''reclassified'' else ''classified'')"
       "d' = d\<lparr>contributions := contributions (with_status cid ''classified'' d),
            classifications := on_conflict_do_update s cid e (classifications d),
            review_history := review_history d @ [h]\<rparr>"
    by auto
  from classify_body_classifications[OF body] assms(2)
  obtain brand manufacturer admin where
    p: "p_brand a = Some brand" "p_manufacturer a = Some manufacturer"
       "p_admin_id a = Some admin"
    and cl: "classifications d' =
       on_conflict_do_update s cid (excluded_row s cid a brand manufacturer admin)
         (classifications d)"
    by auto
  let ?row = "case find (\<lambda>c. cl_contribution_id c = cid) (classifications d) of
        None \<Rightarrow> excluded_row s cid a brand manufacturer admin
      | Some old \<Rightarrow> do_update s (excluded_row s cid a brand manufacturer admin) old"
  have one: "rows_for cid (classifications d') = [?row]"
    unfolding cl by (rule upsert_row_content[OF assms(1)]) simp
  have row: "\<exists>row. rows_for cid (classifications d') = [row]
             \<and> Some (cl_brand row) = p_brand a
             \<and> Some (cl_manufacturer row) = p_manufacturer a
             \<and> Some (cl_classified_by row) = p_admin_id a
             \<and> cl_plastic_type row = p_plastic_type a
             \<and> cl_admin_notes row = p_admin_notes a
             \<and> cl_confidence_level row = p_confidence_level a
             \<and> cl_product_type row = p_product_type a
             \<and> cl_beach_id row = p_beach_id a \<and> cl_company_id row = p_company_id a
             \<and> cl_beach_latitude row = p_beach_latitude a
             \<and> cl_beach_longitude row = p_beach_longitude a
             \<and> cl_classified_at row = now s \<and> cl_updated_at row = now s"
    apply (rule exI[of _ ?row])
    using one upserted_row_fields[OF refl,
        where x = "find (\<lambda>c. cl_contribution_id c = cid) (classifications d)"
          and s = s and cid = cid and a = a and b = brand and m = manufacturer
          and ad = admin] p
    by simp
  have "unique_contribution_id (classifications d')"
    using f(5) upsert_keeps_unique[OF assms(1) f(2)] by simp
  moreover have "\<forall>other. other \<noteq> cid \<longrightarrow>
             rows_for other (classifications d') = rows_for other (classifications d)"
    using f(5) upsert_other_rows[OF f(2)] by simp
  moreover have "review_history d' = review_history d @ [h]"
    using f(5) by simp
  ultimately show ?thesis using f(1,3,4) row by auto
qed

text \<open>
  The same on the sample database, twice in a row: the first call adds the row and logs
  \<open>classified\<close>; the second finds the status \<open>classified\<close> and the row of the first,
  overwrites it in place (same id, same \<open>created_at\<close>, the new brand) and logs
  \<open>reclassified\<close>.
\<close>

lemma classify_contribution_twice:
  "map (\<lambda>c. (cl_id c, cl_contribution_id c, cl_brand c, cl_created_at c, cl_updated_at c))
     (classifications (snd (classify_contribution admin_session sample_classify final_schema_db)))
     = [(''k-1'', ''c-1'', ''Acme'', 100, 100)]
   \<and> fst (classify_contribution later_admin_session
           (sample_classify\<lparr>p_brand := Some ''Zenith''\<rparr>)
           (snd (classify_contribution admin_session sample_classify final_schema_db)))
     = \<lparr>success = True, classification_id = Some ''k-1'',
        previous_status = Some ''classified'', error = None\<rparr>
   \<and> map (\<lambda>c. (cl_id c, cl_contribution_id c, cl_brand c, cl_created_at c, cl_updated_at c))
       (classifications (snd (classify_contribution later_admin_session
           (sample_classify\<lparr>p_brand := Some ''Zenith''\<rparr>)
           (snd (classify_contribution admin_session sample_classify final_schema_db)))))
     = [(''k-1'', ''c-1'', ''Zenith'', 100, 200)]
   \<and> map rh_action
       (review_history (snd (classify_contribution later_admin_session
           (sample_classify\<lparr>p_brand := Some ''Zenith''\<rparr>)
           (snd (classify_contribution admin_session sample_classify final_schema_db)))))
     = [''classified'', ''reclassified'']"
  by (simp add: sample_defs engine_defs Let_def)

subsection \<open>The server action\<close>

text \<open>
  Whatever the caller, the form and the database, the server action leaves
  \<open>classifications\<close> and \<open>review_history\<close> as they are.
\<close>

lemma classifyContribution_writes_no_rows:
  "classifications (snd (classifyContribution user t contributionId data d)) = classifications d
   \<and> review_history (snd (classifyContribution user t contributionId data d)) = review_history d"
  by (simp add: classifyContribution_def update_contributions_def
      split: sum.splits)

text \<open>Once the refactor migration has dropped the columns it writes, it cannot succeed.\<close>

lemma classifyContribution_after_column_drop:
  "\<not> stamp_columns d \<Longrightarrow>
     \<not> a_success (fst (classifyContribution user t contributionId data d))
     \<and> snd (classifyContribution user t contributionId data d) = d"
  by (simp add: classifyContribution_def update_contributions_def
      split: sum.splits)

section \<open>Claims about the classification engine\<close>



text \<open>
  What a successful \<open>reject_contribution\<close> has done, where it can succeed: the status is
  \<open>rejected\<close>, \<open>notes\<close> holds the reason and the admin and time stamp are set; no other
  column of the row and no other row of \<open>contributions\<close> has changed; no classification
  row exists for the contribution; one row has been appended to the review history, with
  action \<open>rejected\<close> and the given reason.
\<close>

lemma reject_contribution_success_effects:
  assumes "r_contribution_id b = Some cid"
      and "reject_contribution s b d = (r, d')"
      and "success r"
  shows "select_status (contributions d) (Some cid) \<noteq> None
       \<and> select_status (contributions d') (Some cid) = Some ''rejected''
       \<and> map drop_stamp_columns (contributions d') =
           map (\<lambda>row. drop_stamp_columns
                  (if c_id row = cid
                   then row\<lparr>c_status := Some ''rejected'', c_notes := r_reason b\<rparr> else row))
             (contributions d)
       \<and> rows_for cid (classifications d') = []
       \<and> (\<exists>h. review_history d' = review_history d @ [h] \<and> rh_contribution_id h = cid \<and>
              rh_action h = ''rejected'' \<and> rh_reason h = r_reason b)"
proof -
  let ?f = "\<lambda>r. r\<lparr>c_status := Some ''rejected'', c_classified_by := r_admin_id b,
                   c_classified_at := Some (now s), c_notes := r_reason b\<rparr>"
  from reject_body_Inr[OF reject_success_body[OF assms(2,3)]] assms(1)
  obtain old h where
    f: "select_status (contributions d) (Some cid) = Some old"
       "rh_contribution_id h = cid" "rh_action h = ''rejected''" "rh_reason h = r_reason b"
       "d' = d\<lparr>contributions :=
              map (\<lambda>r. if c_id r = cid then ?f r else r) (contributions d),
            classifications := filter (\<lambda>c. cl_contribution_id c \<noteq> cid) (classifications d),
            review_history := review_history d @ [h]\<rparr>"
    by auto
  have "select_status (contributions d') (Some cid) = Some ''rejected''"
    using select_status_after_update[of "contributions d" cid old ?f "''rejected''"] f(1,5)
    by simp
  moreover have "map drop_stamp_columns (contributions d') =
           map (\<lambda>row. drop_stamp_columns
                  (if c_id row = cid
                   then row\<lparr>c_status := Some ''rejected'', c_notes := r_reason b\<rparr> else row))
             (contributions d)"
    using f(5) by (simp add: drop_stamp_columns_def)
  moreover have "rows_for cid (classifications d') = []"
    using f(5) by (simp add: rows_for_def filter_empty_conv)
  moreover have "review_history d' = review_history d @ [h]"
    using f(5) by simp
  ultimately show ?thesis using f(1-4) by auto
qed

text \<open>
  C2. A successful reject must change only \<open>status\<close> on the contribution row, the final
  schema keeping no admin or time stamp there, delete the classification and log one
  \<open>rejected\<close> row. The procedure \<open>reject_contribution\<close> was written for the schema
  before the refactor migration and was not rewritten with it: its UPDATE still assigns
  \<open>classified_by\<close> and \<open>classified_at\<close>, and \<open>notes\<close>. The runs below are the failing
  input. On the final schema the administrator's rejection of \<open>c-1\<close> raises
  \<open>undefined_column\<close> and returns \<open>success = false\<close> with the database untouched,
  whether the contribution is pending or has been classified (its classification row is
  then still there). On the schema before the refactor, the rejection of the classified
  contribution succeeds, deletes the classification row and logs \<open>rejected\<close>, and the
  contribution row has its \<open>notes\<close> overwritten and both stamps set.
\<close>

theorem reject_contribution_after_refactor:
  "reject_contribution admin_session sample_reject final_schema_db
     = (\<lparr>success = False, classification_id = None, previous_status = None,
         error = Some (UndefinedColumn ''classified_by'')\<rparr>, final_schema_db)
   \<and> success (fst (classify_contribution admin_session sample_classify final_schema_db))
   \<and> reject_contribution later_admin_session sample_reject
        (snd (classify_contribution admin_session sample_classify final_schema_db))
     = (\<lparr>success = False, classification_id = None, previous_status = None,
         error = Some (UndefinedColumn ''classified_by'')\<rparr>,
        snd (classify_contribution admin_session sample_classify final_schema_db))
   \<and> map cl_id (rows_for ''c-1'' (classifications
        (snd (reject_contribution later_admin_session sample_reject
           (snd (classify_contribution admin_session sample_classify final_schema_db))))))
     = [''k-1'']
   \<and> fst (reject_contribution later_admin_session sample_reject
        (snd (classify_contribution admin_session sample_classify sample_db)))
     = \<lparr>success = True, classification_id = None, previous_status = Some ''classified'',
        error = None\<rparr>
   \<and> rows_for ''c-1'' (classifications
        (snd (reject_contribution later_admin_session sample_reject
           (snd (classify_contribution admin_session sample_classify sample_db)))))
     = []
   \<and> map rh_action (review_history
        (snd (reject_contribution later_admin_session sample_reject
           (snd (classify_contribution admin_session sample_classify sample_db)))))
     = [''classified'', ''rejected'']
   \<and> map (\<lambda>r. (c_status r, c_notes r, c_classified_by r, c_classified_at r))
        (contributions (snd (classify_contribution admin_session sample_classify sample_db)))
     = [(Some ''classified'', Some ''found at low tide'', None, None)]
   \<and> map (\<lambda>r. (c_status r, c_notes r, c_classified_by r, c_classified_at r))
        (contributions
          (snd (reject_contribution later_admin_session sample_reject
             (snd (classify_contribution admin_session sample_classify sample_db)))))
     = [(Some ''rejected'', Some ''duplicate'', Some ''admin-1'', Some 200)]"
  by (simp add: sample_defs engine_defs Let_def)

text \<open>
  C3. A caller who is not an administrator must get an authorization failure from both
  procedures, with no table touched. The run below is the failing input: a signed-in user
  whose token has no role claim in \<open>app_metadata\<close> or \<open>user_metadata\<close>. For this caller
  the hardened \<open>is_admin()\<close> returns NULL (the earlier definition, with COALESCE, returns
  FALSE), the guard \<open>IF NOT is_admin()\<close> is not taken, and both procedures go on to write
  all three tables and return \<open>success = true\<close>.
\<close>

theorem guard_passed_by_caller_without_role:
  "is_admin (caller plain_user_session) = None
   \<and> is_admin_rls (caller plain_user_session) = Some False
   \<and> success (fst (classify_contribution plain_user_session sample_classify sample_db))
   \<and> map c_status
        (contributions (snd (classify_contribution plain_user_session sample_classify sample_db)))
      = [Some ''classified'']
   \<and> map cl_brand
        (classifications (snd (classify_contribution plain_user_session sample_classify sample_db)))
      = [''Acme'']
   \<and> map rh_action
        (review_history (snd (classify_contribution plain_user_session sample_classify sample_db)))
      = [''classified'']
   \<and> success (fst (reject_contribution plain_user_session sample_reject sample_db))
   \<and> map c_status
        (contributions (snd (reject_contribution plain_user_session sample_reject sample_db)))
      = [Some ''rejected'']
   \<and> map rh_action
        (review_history (snd (reject_contribution plain_user_session sample_reject sample_db)))
      = [''rejected'']"
  by (simp add: sample_defs engine_defs Let_def)

text \<open>
  A text value of \<open>p_confidence_level\<close> other than \<open>high\<close>, \<open>medium\<close> and \<open>low\<close> is
  turned away, whoever the caller is and whatever the database holds: \<open>success = false\<close>
  and the database exactly as it was.
\<close>

lemma classify_invalid_confidence_text:
  assumes "p_confidence_level a = Some lvl"
      and "lvl \<notin> {''high'', ''medium'', ''low''}"
  shows "\<not> success (fst (classify_contribution s a d))
       \<and> snd (classify_contribution s a d) = d
       \<and> contributions (snd (classify_contribution s a d)) = contributions d
       \<and> classifications (snd (classify_contribution s a d)) = classifications d
       \<and> review_history (snd (classify_contribution s a d)) = review_history d"
proof -
  have "is_true (sql_not_in (p_confidence_level a) [''high'', ''medium'', ''low''])"
    using assms by (simp add: is_true_def sql_not_in_def)
  then have "\<not> success (fst (classify_contribution s a d))"
    by (simp add: classify_success_iff)
  then show ?thesis
    using classify_failure_rolls_back[of s a d] by simp
qed

text \<open>
  C4. Every confidence level outside \<open>high\<close>, \<open>medium\<close>, \<open>low\<close> must be turned away with
  no table touched. The run below is the failing input: the administrator classifies
  \<open>c-1\<close> with \<open>p_confidence_level\<close> NULL. \<open>NULL NOT IN (...)\<close> is NULL, the validating
  \<open>IF\<close> is not taken, the CHECK constraint of the column admits NULL, and the procedure
  returns \<open>success = true\<close> having written all three tables, the classification row
  with no confidence level. The text value \<open>urgent\<close> is turned away.
\<close>

theorem classify_accepts_null_confidence_level:
  "p_confidence_level (sample_classify\<lparr>p_confidence_level := None\<rparr>) = None
   \<and> sql_not_in None [''high'', ''medium'', ''low''] = None
   \<and> fst (classify_contribution admin_session
           (sample_classify\<lparr>p_confidence_level := None\<rparr>) final_schema_db)
     = \<lparr>success = True, classification_id = Some ''k-1'', previous_status = Some ''pending'',
        error = None\<rparr>
   \<and> map c_status (contributions (snd (classify_contribution admin_session
           (sample_classify\<lparr>p_confidence_level := None\<rparr>) final_schema_db)))
     = [Some ''classified'']
   \<and> map (\<lambda>c. (cl_contribution_id c, cl_brand c, cl_confidence_level c))
       (classifications (snd (classify_contribution admin_session
           (sample_classify\<lparr>p_confidence_level := None\<rparr>) final_schema_db)))
     = [(''c-1'', ''Acme'', None)]
   \<and> map rh_action (review_history (snd (classify_contribution admin_session
           (sample_classify\<lparr>p_confidence_level := None\<rparr>) final_schema_db)))
     = [''classified'']
   \<and> classify_contribution admin_session
           (sample_classify\<lparr>p_confidence_level := Some ''urgent''\<rparr>) final_schema_db
     = (\<lparr>success = False, classification_id = None, previous_status = None,
         error = Some (RaiseException ''Invalid confidence level: urgent'')\<rparr>,
        final_schema_db)"
  by (simp add: sample_defs engine_defs Let_def)

text \<open>
  Neither procedure looks at the status it finds: for a contribution that exists,
  whether \<open>classify_contribution\<close> succeeds, and whether \<open>reject_contribution\<close> succeeds, is
  the same in every status. A successful classify leaves the status \<open>classified\<close> and
  logs \<open>reclassified\<close> when the status before was \<open>classified\<close>, \<open>classified\<close> otherwise;
  a successful reject leaves the status \<open>rejected\<close>.
\<close>

lemma status_found_is_not_read:
  assumes "cid \<in> c_id ` set (contributions d)"
      and "p_contribution_id a = Some cid"
      and "r_contribution_id b = Some cid"
  shows "success (fst (classify_contribution s a (with_status cid st d)))
           = success (fst (classify_contribution s a (with_status cid st' d)))
       \<and> success (fst (reject_contribution s b (with_status cid st d)))
           = success (fst (reject_contribution s b (with_status cid st' d)))
       \<and> (success (fst (classify_contribution s a (with_status cid st d))) \<longrightarrow>
            select_status
              (contributions (snd (classify_contribution s a (with_status cid st d))))
              (Some cid) = Some ''classified''
            \<and> (\<exists>h. review_history (snd (classify_contribution s a (with_status cid st d)))
                     = review_history d @ [h]
                   \<and> rh_action h =
                       (if st = ''classified'' then ''reclassified'' else ''classified'')))
       \<and> (success (fst (reject_contribution s b (with_status cid st d))) \<longrightarrow>
            select_status
              (contributions (snd (reject_contribution s b (with_status cid st d))))
              (Some cid) = Some ''rejected'')"
proof -
  have sel: "\<And>x. select_status (contributions (with_status cid x d)) (Some cid) = Some x"
    using select_status_with_status[OF assms(1)] by simp
  have c_same: "success (fst (classify_contribution s a (with_status cid st d)))
           = success (fst (classify_contribution s a (with_status cid st' d)))"
    by (simp add: classify_success_iff assms(2) sel)
  have r_same: "success (fst (reject_contribution s b (with_status cid st d)))
           = success (fst (reject_contribution s b (with_status cid st' d)))"
    by (simp add: reject_success_iff assms(3) sel)
  have c_eff: "select_status
              (contributions (snd (classify_contribution s a (with_status cid st d))))
              (Some cid) = Some ''classified''
            \<and> (\<exists>h. review_history (snd (classify_contribution s a (with_status cid st d)))
                     = review_history d @ [h]
                   \<and> rh_action h =
                       (if st = ''classified'' then ''reclassified'' else ''classified''))"
    if ok: "success (fst (classify_contribution s a (with_status cid st d)))"
  proof -
    let ?d = "with_status cid st d"
    obtain r d' where rd: "classify_contribution s a ?d = (r, d')"
      by (cases "classify_contribution s a ?d")
    with ok have "success r" by simp
    from classify_body_Inr[OF classify_success_body[OF rd this]] assms(2) sel[of st]
    obtain e h where
      f: "rh_action h = (if st = ''classified'' then ''reclassified'' else ''classified'')"
         "d' = ?d\<lparr>contributions := contributions (with_status cid ''classified'' ?d),
            classifications := on_conflict_do_update s cid e (classifications ?d),
            review_history := review_history ?d @ [h]\<rparr>"
      by auto
    have "cid \<in> c_id ` set (contributions ?d)"
      using assms(1) with_status_ids[of cid st d] by (metis set_map)
    then have "select_status (contributions d') (Some cid) = Some ''classified''"
      using select_status_with_status[of cid ?d "''classified''"] f(2) by simp
    moreover have "review_history d' = review_history d @ [h]"
      using f(2) by simp
    ultimately show ?thesis using rd f(1) by auto
  qed
  have r_eff: "select_status
              (contributions (snd (reject_contribution s b (with_status cid st d))))
              (Some cid) = Some ''rejected''"
    if ok: "success (fst (reject_contribution s b (with_status cid st d)))"
  proof -
    let ?d = "with_status cid st d"
    obtain r d' where rd: "reject_contribution s b ?d = (r, d')"
      by (cases "reject_contribution s b ?d")
    with ok have "success r" by simp
    from reject_body_Inr[OF reject_success_body[OF rd this]] assms(3)
    obtain old h where
      f: "select_status (contributions ?d) (Some cid) = Some old"
         "d' = ?d\<lparr>contributions :=
              map (\<lambda>r. if c_id r = cid
                   then r\<lparr>c_status := Some ''rejected'', c_classified_by := r_admin_id b,
                          c_classified_at := Some (now s), c_notes := r_reason b\<rparr>
                   else r) (contributions ?d),
            classifications := filter (\<lambda>c. cl_contribution_id c \<noteq> cid) (classifications ?d),
            review_history := review_history ?d @ [h]\<rparr>"
      by auto
    have "select_status (contributions d') (Some cid) = Some ''rejected''"
      using select_status_after_update[of "contributions ?d" cid old
          "\<lambda>r. r\<lparr>c_status := Some ''rejected'', c_classified_by := r_admin_id b,
                   c_classified_at := Some (now s), c_notes := r_reason b\<rparr>" "''rejected''"] f
      by simp
    then show ?thesis using rd by simp
  qed
  show ?thesis using c_same r_same c_eff r_eff by blast
qed

text \<open>
  C5. Every status must accept both operations, none being terminal. The runs below are
  the failing input: on the final schema the administrator classifies and rejects
  \<open>c-1\<close> from each of \<open>pending\<close>, \<open>classified\<close> and \<open>rejected\<close>. Classify is accepted
  from all three, ends in \<open>classified\<close> and logs \<open>classified\<close>, \<open>reclassified\<close>,
  \<open>classified\<close>. Reject is accepted from none: \<open>reject_contribution\<close> still assigns the
  stamp columns that the refactor migration dropped, so it returns \<open>success = false\<close>
  and the status stays what it was; no contribution can reach \<open>rejected\<close> any more.
\<close>

theorem reject_accepted_in_no_status:
  "map (\<lambda>st. fst (classify_contribution admin_session sample_classify
                    (with_status ''c-1'' st final_schema_db)))
       [''pending'', ''classified'', ''rejected'']
     = [\<lparr>success = True, classification_id = Some ''k-1'', previous_status = Some ''pending'',
         error = None\<rparr>,
        \<lparr>success = True, classification_id = Some ''k-1'',
         previous_status = Some ''classified'', error = None\<rparr>,
        \<lparr>success = True, classification_id = Some ''k-1'',
         previous_status = Some ''rejected'', error = None\<rparr>]
   \<and> map (\<lambda>st. select_status (contributions (snd (classify_contribution admin_session
                    sample_classify (with_status ''c-1'' st final_schema_db)))) (Some ''c-1''))
       [''pending'', ''classified'', ''rejected'']
     = [Some ''classified'', Some ''classified'', Some ''classified'']
   \<and> map (\<lambda>st. map rh_action (review_history (snd (classify_contribution admin_session
                    sample_classify (with_status ''c-1'' st final_schema_db)))))
       [''pending'', ''classified'', ''rejected'']
     = [[''classified''], [''reclassified''], [''classified'']]
   \<and> map (\<lambda>st. success (fst (reject_contribution admin_session sample_reject
                    (with_status ''c-1'' st final_schema_db))))
       [''pending'', ''classified'', ''rejected'']
     = [False, False, False]
   \<and> map (\<lambda>st. error (fst (reject_contribution admin_session sample_reject
                    (with_status ''c-1'' st final_schema_db))))
       [''pending'', ''classified'', ''rejected'']
     = [Some (UndefinedColumn ''classified_by''), Some (UndefinedColumn ''classified_by''),
        Some (UndefinedColumn ''classified_by'')]
   \<and> map (\<lambda>st. select_status (contributions (snd (reject_contribution admin_session
                    sample_reject (with_status ''c-1'' st final_schema_db)))) (Some ''c-1''))
       [''pending'', ''classified'', ''rejected'']
     = [Some ''pending'', Some ''classified'', Some ''rejected'']"
  by (simp add: sample_defs engine_defs Let_def)


section \<open>Properties of the offline queue and the sync manager\<close>

subsection \<open>Lists keyed by id\<close>

lemma distinct_key_Cons:
  "distinct (map k (x # xs)) \<Longrightarrow> q \<in> set xs \<Longrightarrow> k q \<noteq> k x"
  by (metis distinct.simps(2) image_eqI list.simps(9) set_map)

lemma update_first_map:
  assumes "distinct (map k xs)" "\<And>x. k (f x) = k x"
  shows "update_first (\<lambda>q. k q = i) f xs = map (\<lambda>q. if k q = i then f q else q) xs"
  using assms(1)
proof (induction xs)
  case Nil
  then show ?case by simp
next
  case (Cons x xs)
  show ?case
  proof (cases "k x = i")
    case True
    then have "\<forall>q\<in>set xs. k q \<noteq> i"
      using Cons.prems by (metis distinct.simps(2) image_eqI list.simps(9) set_map)
    then have "map (\<lambda>q. if k q = i then f q else q) xs = xs"
      by (simp add: map_idI)
    then show ?thesis using True by simp
  next
    case False
    then show ?thesis using Cons by simp
  qed
qed

lemma map_filter_comp:
  "List.map_filter g (List.map_filter f xs)
     = List.map_filter (\<lambda>x. case f x of None \<Rightarrow> None | Some y \<Rightarrow> g y) xs"
  by (induction xs) (auto simp: List.map_filter_simps split: option.splits)

lemma map_filter_cong_set:
  "(\<And>x. x \<in> set xs \<Longrightarrow> f x = g x) \<Longrightarrow> List.map_filter f xs = List.map_filter g xs"
  by (induction xs) (auto simp: List.map_filter_simps split: option.splits)

lemma set_map_filter: "set (List.map_filter f xs) = {y. \<exists>x\<in>set xs. f x = Some y}"
  by (induction xs) (auto simp: List.map_filter_simps split: option.splits)

lemma map_filter_Some: "List.map_filter Some xs = xs"
  by (induction xs) (auto simp: List.map_filter_simps)

lemma map_filter_keys:
  assumes "\<And>x y. f x = Some y \<Longrightarrow> k y = k x" "distinct (map k xs)"
  shows "distinct (map k (List.map_filter f xs))"
  using assms(2)
proof (induction xs)
  case Nil
  then show ?case by (simp add: List.map_filter_simps)
next
  case (Cons x xs)
  show ?case
  proof (cases "f x")
    case None
    then show ?thesis using Cons by (simp add: List.map_filter_simps)
  next
    case (Some y)
    have "k y \<notin> k ` set (List.map_filter f xs)"
    proof
      assume "k y \<in> k ` set (List.map_filter f xs)"
      then obtain z where "z \<in> set (List.map_filter f xs)" "k z = k y" by auto
      then obtain w where "w \<in> set xs" "f w = Some z" by (auto simp: set_map_filter)
      then have "k w = k x" using assms(1)[of w z] assms(1)[OF Some] \<open>k z = k y\<close> by simp
      then show False using Cons.prems \<open>w \<in> set xs\<close>
        by (metis distinct.simps(2) image_eqI list.simps(9) set_map)
    qed
    then show ?thesis using Some Cons by (simp add: List.map_filter_simps)
  qed
qed

lemma same_key_same_item:
  "distinct (map k xs) \<Longrightarrow> x \<in> set xs \<Longrightarrow> y \<in> set xs \<Longrightarrow> k x = k y \<Longrightarrow> x = y"
  by (meson distinct_map inj_onD)

subsection \<open>Stores with the same records\<close>

lemma mset_map_filter_cong:
  "mset xs = mset ys \<Longrightarrow> mset (List.map_filter g xs) = mset (List.map_filter g ys)"
  by (simp add: List.map_filter_def)

lemma mset_filter_cong: "mset xs = mset ys \<Longrightarrow> mset (filter P xs) = mset (filter P ys)"
  by simp

lemma mset_map_cong: "mset xs = mset ys \<Longrightarrow> mset (map f xs) = mset (map f ys)"
  by simp

lemma unique_ids_mset: "mset xs = mset ys \<Longrightarrow> unique_ids xs = unique_ids ys"
proof -
  assume "mset xs = mset ys"
  then have "mset (map q_id xs) = mset (map q_id ys)" by simp
  then show ?thesis unfolding unique_ids_def by (rule mset_eq_imp_distinct_iff)
qed

lemma length_filter_sort: "length (filter P (sort_key f xs)) = length (filter P xs)"
  by (metis filter_sort length_sort)

lemma getOfflineQueue_set [simp]: "set (getOfflineQueue store) = set store"
  by (simp add: getOfflineQueue_def)

lemma getOfflineQueue_mset [simp]: "mset (getOfflineQueue store) = mset store"
  by (simp add: getOfflineQueue_def)

lemma getOfflineQueue_unique: "unique_ids (getOfflineQueue store) = unique_ids store"
  by (rule unique_ids_mset) simp

subsection \<open>The queue operations on a store with unique ids\<close>

lemma set_item_status_id [simp]: "q_id (set_item_status st err q) = q_id q"
  by (simp add: set_item_status_def Let_def)

lemma updateQueueItemStatus_mset:
  assumes "unique_ids store"
  shows "mset (updateQueueItemStatus i st err store)
       = mset (map (\<lambda>q. if q_id q = i then set_item_status st err q else q) store)"
proof (cases "find (\<lambda>q. q_id q = i) (getOfflineQueue store)")
  case None
  then have "\<forall>q\<in>set store. q_id q \<noteq> i" by (auto simp: find_None_iff)
  then have "map (\<lambda>q. if q_id q = i then set_item_status st err q else q) store = store"
    by (simp add: map_idI)
  then show ?thesis using None by (simp add: updateQueueItemStatus_def)
next
  case (Some item)
  let ?q = "getOfflineQueue store"
  have u: "distinct (map q_id ?q)"
    using assms getOfflineQueue_unique[of store] by (simp add: unique_ids_def)
  have m: "update_first (\<lambda>q. q_id q = i) (set_item_status st err) ?q
      = map (\<lambda>q. if q_id q = i then set_item_status st err q else q) ?q"
    using update_first_map[of q_id ?q "set_item_status st err" i] u by simp
  have "(q_id \<circ> (\<lambda>q. if q_id q = i then set_item_status st err q else q)) = q_id"
    by (rule ext) simp
  then have "distinct (map q_id (map (\<lambda>q. if q_id q = i then set_item_status st err q else q) ?q))"
    using u by simp
  then have "updateQueueItemStatus i st err store
      = map (\<lambda>q. if q_id q = i then set_item_status st err q else q) ?q"
    using Some m by (simp add: updateQueueItemStatus_def saveQueueToIndexedDB_def)
  then show ?thesis by simp
qed

lemma updateQueueItemStatus_unique:
  assumes "unique_ids store"
  shows "unique_ids (updateQueueItemStatus i st err store)"
proof -
  have "(q_id \<circ> (\<lambda>q. if q_id q = i then set_item_status st err q else q)) = q_id"
    by (rule ext) simp
  then have "unique_ids (map (\<lambda>q. if q_id q = i then set_item_status st err q else q) store)"
    using assms by (simp add: unique_ids_def)
  then show ?thesis
    using unique_ids_mset[OF updateQueueItemStatus_mset[OF assms, of i st err]] by simp
qed

subsection \<open>The network part of one attempt\<close>

lemma uploadFile_fst [simp]: "fst (uploadFile net f r) = storage_upload net f"
  by (simp add: uploadFile_def split: sum.splits)

lemma upload_optional_fst [simp]:
  "fst (upload_optional net img r) = map_option (\<lambda>i. storage_upload net (getFile i)) img"
  by (cases img) (auto simp: upload_optional_def uploadFile_def split: prod.splits sum.splits)

text \<open>
  An attempt fails with the first upload that was rejected, else with the error of the
  insert; it succeeds when every image that is present was stored and the row went in.
\<close>

lemma sync_error_cases:
  "sync_error net item =
     (let uploadedImages =
            [Some (storage_upload net (getFile (productImage (q_images item)))),
             map_option (\<lambda>i. storage_upload net (getFile i)) (backsideImage (q_images item)),
             map_option (\<lambda>i. storage_upload net (getFile i)) (recyclingImage (q_images item)),
             map_option (\<lambda>i. storage_upload net (getFile i)) (manufacturerImage (q_images item))]
      in case rejection uploadedImages of
           Some e \<Rightarrow> Some e
         | None \<Rightarrow> db_insert net (contributionData net item uploadedImages))"
proof -
  let ?e = "\<lparr>bucket = [], inserted = []\<rparr>"
  obtain v0 s0 where b0: "uploadFile net (getFile (productImage (q_images item))) ?e = (v0, s0)"
    by (cases "uploadFile net (getFile (productImage (q_images item))) ?e")
  obtain v1 s1 where b1: "upload_optional net (backsideImage (q_images item)) s0 = (v1, s1)"
    by (cases "upload_optional net (backsideImage (q_images item)) s0")
  obtain v2 s2 where b2: "upload_optional net (recyclingImage (q_images item)) s1 = (v2, s2)"
    by (cases "upload_optional net (recyclingImage (q_images item)) s1")
  obtain v3 s3 where b3: "upload_optional net (manufacturerImage (q_images item)) s2 = (v3, s3)"
    by (cases "upload_optional net (manufacturerImage (q_images item)) s2")
  have v: "v0 = storage_upload net (getFile (productImage (q_images item)))"
    "v1 = map_option (\<lambda>i. storage_upload net (getFile i)) (backsideImage (q_images item))"
    "v2 = map_option (\<lambda>i. storage_upload net (getFile i)) (recyclingImage (q_images item))"
    "v3 = map_option (\<lambda>i. storage_upload net (getFile i)) (manufacturerImage (q_images item))"
    using b0 b1 b2 b3 uploadFile_fst[of net _ ?e] upload_optional_fst[of net _ s0]
      upload_optional_fst[of net _ s1] upload_optional_fst[of net _ s2]
    by (metis fst_conv)+
  show ?thesis
    unfolding v[symmetric]
    by (simp add: syncSingleContribution_def sync_error_def b0 b1 b2 b3 Let_def
        split: option.splits)
qed

lemma syncSingleContribution_parts:
  "syncSingleContribution net item (store, r) =
     (sync_error net item,
      (if sync_error net item = None
       then updateQueueItemStatus (q_id item) Completed None
              (updateQueueItemStatus (q_id item) Uploading None store)
       else updateQueueItemStatus (q_id item) Uploading None store),
      remote_after net r item)"
proof -
  obtain u0 r0 where a0: "uploadFile net (getFile (productImage (q_images item))) r = (u0, r0)"
    by (cases "uploadFile net (getFile (productImage (q_images item))) r")
  obtain u1 r1 where a1: "upload_optional net (backsideImage (q_images item)) r0 = (u1, r1)"
    by (cases "upload_optional net (backsideImage (q_images item)) r0")
  obtain u2 r2 where a2: "upload_optional net (recyclingImage (q_images item)) r1 = (u2, r2)"
    by (cases "upload_optional net (recyclingImage (q_images item)) r1")
  obtain u3 r3 where a3: "upload_optional net (manufacturerImage (q_images item)) r2 = (u3, r3)"
    by (cases "upload_optional net (manufacturerImage (q_images item)) r2")
  let ?e = "\<lparr>bucket = [], inserted = []\<rparr>"
  obtain v0 s0 where b0: "uploadFile net (getFile (productImage (q_images item))) ?e = (v0, s0)"
    by (cases "uploadFile net (getFile (productImage (q_images item))) ?e")
  obtain v1 s1 where b1: "upload_optional net (backsideImage (q_images item)) s0 = (v1, s1)"
    by (cases "upload_optional net (backsideImage (q_images item)) s0")
  obtain v2 s2 where b2: "upload_optional net (recyclingImage (q_images item)) s1 = (v2, s2)"
    by (cases "upload_optional net (recyclingImage (q_images item)) s1")
  obtain v3 s3 where b3: "upload_optional net (manufacturerImage (q_images item)) s2 = (v3, s3)"
    by (cases "upload_optional net (manufacturerImage (q_images item)) s2")
  have "v0 = u0" using a0 b0 uploadFile_fst[of net _ r] uploadFile_fst[of net _ ?e]
    by (metis fst_conv)
  moreover have "v1 = u1" using a1 b1 upload_optional_fst[of net _ r0] upload_optional_fst[of net _ s0]
    by (metis fst_conv)
  moreover have "v2 = u2" using a2 b2 upload_optional_fst[of net _ r1] upload_optional_fst[of net _ s1]
    by (metis fst_conv)
  moreover have "v3 = u3" using a3 b3 upload_optional_fst[of net _ r2] upload_optional_fst[of net _ s2]
    by (metis fst_conv)
  ultimately have b: "uploadFile net (getFile (productImage (q_images item))) ?e = (u0, s0)"
    "upload_optional net (backsideImage (q_images item)) s0 = (u1, s1)"
    "upload_optional net (recyclingImage (q_images item)) s1 = (u2, s2)"
    "upload_optional net (manufacturerImage (q_images item)) s2 = (u3, s3)"
    using b0 b1 b2 b3 by simp_all
  show ?thesis
    by (simp add: syncSingleContribution_def sync_error_def remote_after_def a0 a1 a2 a3 b Let_def
        split: option.splits)
qed


subsection \<open>One turn of the loop\<close>

lemma filter_as_map_filter:
  "filter P xs = List.map_filter (\<lambda>q. if P q then Some q else None) xs"
  using map_filter_map_filter[of "\<lambda>x. x" P xs] by simp

lemma map_as_map_filter: "map f xs = List.map_filter (\<lambda>q. Some (f q)) xs"
  by (induction xs) (auto simp: List.map_filter_simps)

lemma filter_after_update:
  assumes "\<And>q. q_id (f q) = q_id q"
  shows "filter (\<lambda>q. q_id q \<noteq> i) (map (\<lambda>q. if q_id q = i then f q else q) xs)
       = filter (\<lambda>q. q_id q \<noteq> i) xs"
  using assms by (induction xs) auto

lemma failed_after_uploading:
  "set_item_status Failed (Some e) (set_item_status Uploading None q)
     = q\<lparr>q_status := Failed, q_error := (if e = [] then q_error q else Some e),
         q_retryCount := q_retryCount q + 1\<rparr>"
  by (simp add: set_item_status_def truthy_def Let_def)

lemma store_after_success:
  assumes "unique_ids store"
  shows "mset (removeFromQueue i (updateQueueItemStatus i Completed None
            (updateQueueItemStatus i Uploading None store)))
       = mset (List.map_filter (\<lambda>q. if q_id q = i then None else Some q) store)"
proof -
  let ?U = "\<lambda>q. if q_id q = i then set_item_status Uploading None q else q"
  let ?C = "\<lambda>q. if q_id q = i then set_item_status Completed None q else q"
  have u: "unique_ids (updateQueueItemStatus i Uploading None store)"
    using assms by (rule updateQueueItemStatus_unique)
  have "mset (updateQueueItemStatus i Completed None (updateQueueItemStatus i Uploading None store))
      = mset (map ?C (updateQueueItemStatus i Uploading None store))"
    by (rule updateQueueItemStatus_mset[OF u])
  also have "\<dots> = mset (map ?C (map ?U store))"
    by (rule mset_map_cong) (rule updateQueueItemStatus_mset[OF assms])
  finally have "mset (removeFromQueue i (updateQueueItemStatus i Completed None
            (updateQueueItemStatus i Uploading None store)))
       = mset (filter (\<lambda>q. q_id q \<noteq> i) (map ?C (map ?U store)))"
    unfolding removeFromQueue_def by (rule mset_filter_cong)
  also have "filter (\<lambda>q. q_id q \<noteq> i) (map ?C (map ?U store)) = filter (\<lambda>q. q_id q \<noteq> i) store"
    by (simp only: filter_after_update[of "set_item_status Completed None"]
        filter_after_update[of "set_item_status Uploading None"] set_item_status_id)
  also have "\<dots> = List.map_filter (\<lambda>q. if q_id q \<noteq> i then Some q else None) store"
    by (rule filter_as_map_filter)
  also have "\<dots> = List.map_filter (\<lambda>q. if q_id q = i then None else Some q) store"
    by (rule map_filter_cong_set) simp
  finally show ?thesis .
qed

lemma store_after_failure:
  assumes "unique_ids store"
  shows "mset (updateQueueItemStatus i Failed (Some e) (updateQueueItemStatus i Uploading None store))
       = mset (List.map_filter (\<lambda>q. if q_id q = i
            then Some (q\<lparr>q_status := Failed, q_error := (if e = [] then q_error q else Some e),
                         q_retryCount := q_retryCount q + 1\<rparr>)
            else Some q) store)"
proof -
  let ?U = "\<lambda>q. if q_id q = i then set_item_status Uploading None q else q"
  let ?F = "\<lambda>q. if q_id q = i then set_item_status Failed (Some e) q else q"
  have u: "unique_ids (updateQueueItemStatus i Uploading None store)"
    using assms by (rule updateQueueItemStatus_unique)
  have "mset (updateQueueItemStatus i Failed (Some e) (updateQueueItemStatus i Uploading None store))
      = mset (map ?F (updateQueueItemStatus i Uploading None store))"
    by (rule updateQueueItemStatus_mset[OF u])
  also have "\<dots> = mset (map ?F (map ?U store))"
    by (rule mset_map_cong) (rule updateQueueItemStatus_mset[OF assms])
  also have "map ?F (map ?U store) = map (\<lambda>q. if q_id q = i
            then set_item_status Failed (Some e) (set_item_status Uploading None q) else q) store"
    by (induction store) auto
  also have "\<dots> = List.map_filter (\<lambda>q. Some (if q_id q = i
            then set_item_status Failed (Some e) (set_item_status Uploading None q) else q)) store"
    by (rule map_as_map_filter)
  also have "\<dots> = List.map_filter (\<lambda>q. if q_id q = i
            then Some (q\<lparr>q_status := Failed, q_error := (if e = [] then q_error q else Some e),
                         q_retryCount := q_retryCount q + 1\<rparr>)
            else Some q) store"
    by (rule map_filter_cong_set) (simp add: failed_after_uploading)
  finally show ?thesis .
qed

lemma sync_item_effect:
  assumes "unique_ids (local_store st)" "item \<in> set (local_store st)"
      and "sync_item net (stats, st) item = (stats', st')"
  shows "mset (local_store st') =
           mset (List.map_filter (\<lambda>q. if q_id q = q_id item then after_attempt net q else Some q)
             (local_store st))"
    and "remote_side st' = remote_after net (remote_side st) item"
    and "total stats' = total stats"
    and "completed stats' = completed stats + (if sync_error net item = None then 1 else 0)"
    and "failed stats' = failed stats + (if sync_error net item = None then 0 else 1)"
    and "isSyncing st' = isSyncing st" and "onLine st' = onLine st"
proof -
  have same: "\<And>q. q \<in> set (local_store st) \<Longrightarrow> q_id q = q_id item \<Longrightarrow> q = item"
    using same_key_same_item[of q_id "local_store st"] assms(1,2) by (simp add: unique_ids_def)
  show "mset (local_store st') =
           mset (List.map_filter (\<lambda>q. if q_id q = q_id item then after_attempt net q else Some q)
             (local_store st))"
  proof (cases "sync_error net item")
    case None
    then have "local_store st' = removeFromQueue (q_id item)
        (updateQueueItemStatus (q_id item) Completed None
          (updateQueueItemStatus (q_id item) Uploading None (local_store st)))"
      using assms(3)
      by (auto simp: sync_item_def syncSingleContribution_parts notifySyncProgress_def Let_def)
    then have "mset (local_store st') =
        mset (List.map_filter (\<lambda>q. if q_id q = q_id item then None else Some q) (local_store st))"
      using store_after_success[OF assms(1), of "q_id item"] by simp
    moreover have "List.map_filter (\<lambda>q. if q_id q = q_id item then None else Some q)
          (local_store st)
        = List.map_filter
            (\<lambda>q. if q_id q = q_id item then after_attempt net q else Some q) (local_store st)"
    proof (rule map_filter_cong_set)
      fix x assume "x \<in> set (local_store st)"
      then show "(if q_id x = q_id item then None else Some x)
          = (if q_id x = q_id item then after_attempt net x else Some x)"
        using same[of x] None by (auto simp: after_attempt_def)
    qed
    ultimately show ?thesis by simp
  next
    case (Some e)
    then have "local_store st' = updateQueueItemStatus (q_id item) Failed (Some e)
          (updateQueueItemStatus (q_id item) Uploading None (local_store st))"
      using assms(3)
      by (auto simp: sync_item_def syncSingleContribution_parts notifySyncProgress_def Let_def)
    then have "mset (local_store st') = mset (List.map_filter (\<lambda>q. if q_id q = q_id item
            then Some (q\<lparr>q_status := Failed, q_error := (if e = [] then q_error q else Some e),
                         q_retryCount := q_retryCount q + 1\<rparr>)
            else Some q) (local_store st))"
      using store_after_failure[OF assms(1), of "q_id item" e] by simp
    moreover have "List.map_filter (\<lambda>q. if q_id q = q_id item
            then Some (q\<lparr>q_status := Failed, q_error := (if e = [] then q_error q else Some e),
                         q_retryCount := q_retryCount q + 1\<rparr>)
            else Some q) (local_store st)
        = List.map_filter
            (\<lambda>q. if q_id q = q_id item then after_attempt net q else Some q) (local_store st)"
    proof (rule map_filter_cong_set)
      fix x assume "x \<in> set (local_store st)"
      then show "(if q_id x = q_id item
            then Some (x\<lparr>q_status := Failed, q_error := (if e = [] then q_error x else Some e),
                         q_retryCount := q_retryCount x + 1\<rparr>)
            else Some x)
          = (if q_id x = q_id item then after_attempt net x else Some x)"
        using same[of x] Some by (auto simp: after_attempt_def)
    qed
    ultimately show ?thesis by simp
  qed
  show "remote_side st' = remote_after net (remote_side st) item"
    using assms(3)
    by (auto simp: sync_item_def syncSingleContribution_parts notifySyncProgress_def Let_def
        split: option.splits)
  show "total stats' = total stats"
    using assms(3)
    by (auto simp: sync_item_def syncSingleContribution_parts notifySyncProgress_def Let_def
        split: option.splits)
  show "completed stats' = completed stats + (if sync_error net item = None then 1 else 0)"
    using assms(3)
    by (auto simp: sync_item_def syncSingleContribution_parts notifySyncProgress_def Let_def
        split: option.splits)
  show "failed stats' = failed stats + (if sync_error net item = None then 0 else 1)"
    using assms(3)
    by (auto simp: sync_item_def syncSingleContribution_parts notifySyncProgress_def Let_def
        split: option.splits)
  show "isSyncing st' = isSyncing st"
    using assms(3)
    by (auto simp: sync_item_def syncSingleContribution_parts notifySyncProgress_def Let_def
        split: option.splits)
  show "onLine st' = onLine st"
    using assms(3)
    by (auto simp: sync_item_def syncSingleContribution_parts notifySyncProgress_def Let_def
        split: option.splits)
qed


subsection \<open>The whole loop\<close>

lemma after_attempt_id: "after_attempt net q = Some y \<Longrightarrow> q_id y = q_id q"
  by (auto simp: after_attempt_def split: option.splits)

lemma sync_loop_effect:
  assumes "unique_ids (local_store st)" "distinct (map q_id P)" "set P \<subseteq> set (local_store st)"
      and "foldl (sync_item net) (stats, st) P = (stats', st')"
  shows "mset (local_store st') =
           mset (List.map_filter (\<lambda>q. if q \<in> set P then after_attempt net q else Some q)
             (local_store st))
       \<and> remote_side st' = foldl (remote_after net) (remote_side st) P
       \<and> total stats' = total stats
       \<and> completed stats' = completed stats + length (filter (\<lambda>q. sync_error net q = None) P)
       \<and> failed stats' = failed stats + length (filter (\<lambda>q. sync_error net q \<noteq> None) P)
       \<and> isSyncing st' = isSyncing st \<and> onLine st' = onLine st"
  using assms
proof (induction P arbitrary: stats st)
  case Nil
  then show ?case by (simp add: map_filter_Some)
next
  case (Cons p P)
  obtain stats1 st1 where one: "sync_item net (stats, st) p = (stats1, st1)"
    by (cases "sync_item net (stats, st) p")
  have p_in: "p \<in> set (local_store st)" using Cons.prems(3) by simp
  note eff = sync_item_effect[OF Cons.prems(1) p_in one]
  let ?f = "\<lambda>q. if q_id q = q_id p then after_attempt net q else Some q"
  let ?g = "\<lambda>q. if q \<in> set P then after_attempt net q else Some q"
  have f_id: "\<And>x y. ?f x = Some y \<Longrightarrow> q_id y = q_id x"
    by (auto dest: after_attempt_id split: if_splits)
  have "distinct (map q_id (List.map_filter ?f (local_store st)))"
  proof (rule map_filter_keys)
    fix x y assume "?f x = Some y"
    then show "q_id y = q_id x" by (rule f_id)
  next
    show "distinct (map q_id (local_store st))"
      using Cons.prems(1) by (simp add: unique_ids_def)
  qed
  then have "unique_ids (List.map_filter ?f (local_store st))"
    unfolding unique_ids_def .
  then have u1: "unique_ids (local_store st1)"
    using unique_ids_mset[OF eff(1)] by simp
  have other: "\<And>q. q \<in> set P \<Longrightarrow> q_id q \<noteq> q_id p"
    using Cons.prems(2) by (rule distinct_key_Cons)
  have set1: "set (local_store st1) = set (List.map_filter ?f (local_store st))"
    using eff(1) by (rule mset_eq_setD)
  have sub1: "set P \<subseteq> set (local_store st1)"
  proof
    fix q assume q: "q \<in> set P"
    then have "q \<in> set (local_store st)" using Cons.prems(3) by auto
    moreover have "?f q = Some q" using other[OF q] by simp
    ultimately show "q \<in> set (local_store st1)"
      unfolding set1 set_map_filter by blast
  qed
  have d1: "distinct (map q_id P)" using Cons.prems(2) by simp
  have rest: "foldl (sync_item net) (stats1, st1) P = (stats', st')"
    using Cons.prems(4) one by simp
  from Cons.IH[OF u1 d1 sub1 rest]
  have ih1: "mset (local_store st') = mset (List.map_filter ?g (local_store st1))"
    and ih2: "remote_side st' = foldl (remote_after net) (remote_side st1) P"
    and ih3: "total stats' = total stats1"
    and ih4: "completed stats' = completed stats1 + length (filter (\<lambda>q. sync_error net q = None) P)"
    and ih5: "failed stats' = failed stats1 + length (filter (\<lambda>q. sync_error net q \<noteq> None) P)"
    and ih6: "isSyncing st' = isSyncing st1" and ih7: "onLine st' = onLine st1"
    by blast+
  have same: "\<And>q. q \<in> set (local_store st) \<Longrightarrow> q_id q = q_id p \<Longrightarrow> q = p"
    using same_key_same_item[of q_id "local_store st"] Cons.prems(1) p_in
    by (simp add: unique_ids_def)
  have "mset (List.map_filter ?g (local_store st1))
      = mset (List.map_filter ?g (List.map_filter ?f (local_store st)))"
    using eff(1) by (rule mset_map_filter_cong)
  moreover have "List.map_filter ?g (List.map_filter ?f (local_store st)) = List.map_filter
      (\<lambda>x. case ?f x of None \<Rightarrow> None | Some y \<Rightarrow> ?g y) (local_store st)"
    by (rule map_filter_comp)
  moreover have "List.map_filter
      (\<lambda>x. case ?f x of None \<Rightarrow> None | Some y \<Rightarrow> ?g y) (local_store st)
    = List.map_filter
      (\<lambda>q. if q \<in> set (p # P) then after_attempt net q else Some q) (local_store st)"
  proof (rule map_filter_cong_set)
    fix x assume x: "x \<in> set (local_store st)"
    show "(case ?f x of None \<Rightarrow> None | Some y \<Rightarrow> ?g y)
        = (if x \<in> set (p # P) then after_attempt net x else Some x)"
    proof (cases "q_id x = q_id p")
      case True
      then have xp: "x = p" using same[OF x] by simp
      show ?thesis
      proof (cases "after_attempt net p")
        case None
        then show ?thesis using xp by simp
      next
        case (Some y)
        then have "q_id y = q_id p" by (rule after_attempt_id)
        then have "y \<notin> set P" using other by auto
        then show ?thesis using xp Some by simp
      qed
    next
      case False
      then have "x \<noteq> p" by auto
      then show ?thesis using False by simp
    qed
  qed
  ultimately have store: "mset (local_store st') = mset (List.map_filter
      (\<lambda>q. if q \<in> set (p # P) then after_attempt net q else Some q) (local_store st))"
    using ih1 by simp
  have "remote_side st' = foldl (remote_after net) (remote_side st) (p # P)"
    using ih2 eff(2) by simp
  moreover have "total stats' = total stats" using ih3 eff(3) by simp
  moreover have "completed stats' =
      completed stats + length (filter (\<lambda>q. sync_error net q = None) (p # P))"
    using ih4 eff(4) by simp
  moreover have "failed stats' =
      failed stats + length (filter (\<lambda>q. sync_error net q \<noteq> None) (p # P))"
    using ih5 eff(5) by simp
  moreover have "isSyncing st' = isSyncing st" "onLine st' = onLine st"
    using ih6 ih7 eff(6,7) by simp_all
  ultimately show ?case using store by blast
qed

subsection \<open>A whole pass\<close>

lemma sync_item_flags:
  "isSyncing (snd (sync_item net (stats, st) item)) = isSyncing st
   \<and> onLine (snd (sync_item net (stats, st) item)) = onLine st"
  by (simp add: sync_item_def syncSingleContribution_parts notifySyncProgress_def Let_def
      split: option.splits)

lemma sync_loop_flags:
  "isSyncing (snd (foldl (sync_item net) (stats, st) P)) = isSyncing st
   \<and> onLine (snd (foldl (sync_item net) (stats, st) P)) = onLine st"
proof (induction P arbitrary: stats st)
  case Nil
  then show ?case by simp
next
  case (Cons p P)
  obtain stats1 st1 where one: "sync_item net (stats, st) p = (stats1, st1)"
    by (cases "sync_item net (stats, st) p")
  then show ?case using Cons[of stats1 st1] sync_item_flags[of net stats st p] by simp
qed

lemma syncQueue_guard:
  "isSyncing st \<or> \<not> onLine st \<Longrightarrow> syncQueue net st = (no_progress, st)"
  by (auto simp: syncQueue_def isOnline_def)

lemma syncQueue_effect:
  assumes "unique_ids (local_store st)" "\<not> isSyncing st" "onLine st"
      and "syncQueue net st = (stats, st')"
  shows "mset (local_store st') =
           mset (List.map_filter (\<lambda>q. if selected q then after_attempt net q else Some q)
             (local_store st))"
    and "remote_side st' =
           foldl (remote_after net) (remote_side st)
             (filter selected (getOfflineQueue (local_store st)))"
    and "total stats = length (filter selected (local_store st))"
    and "completed stats =
           length (filter (\<lambda>q. sync_error net q = None) (filter selected (local_store st)))"
    and "failed stats =
           length (filter (\<lambda>q. sync_error net q \<noteq> None) (filter selected (local_store st)))"
    and "\<not> isSyncing st'" and "onLine st'"
proof -
  let ?P = "filter selected (getOfflineQueue (local_store st))"
  let ?st1 = "st\<lparr>isSyncing := True\<rparr>"
  let ?stats0 = "\<lparr>total = length ?P, completed = 0, failed = 0, current = None\<rparr>"
  obtain stats2 st2 where loop: "foldl (sync_item net) (?stats0, ?st1) ?P = (stats2, st2)"
    by (cases "foldl (sync_item net) (?stats0, ?st1) ?P")
  have res: "stats = stats2" "st' = st2\<lparr>isSyncing := False\<rparr>"
    using assms(2,3,4) loop by (simp_all add: syncQueue_def isOnline_def Let_def)
  have u: "unique_ids (local_store ?st1)" using assms(1) by simp
  have d: "distinct (map q_id ?P)"
    using assms(1) getOfflineQueue_unique[of "local_store st"]
    by (simp add: unique_ids_def distinct_map_filter)
  have sub: "set ?P \<subseteq> set (local_store ?st1)" by auto
  from sync_loop_effect[OF u d sub loop]
  have l1: "mset (local_store st2) =
           mset (List.map_filter (\<lambda>q. if q \<in> set ?P then after_attempt net q else Some q)
             (local_store st))"
    and l2: "remote_side st2 = foldl (remote_after net) (remote_side st) ?P"
    and l3: "total stats2 = length ?P"
    and l4: "completed stats2 = length (filter (\<lambda>q. sync_error net q = None) ?P)"
    and l5: "failed stats2 = length (filter (\<lambda>q. sync_error net q \<noteq> None) ?P)"
    and l7: "onLine st2 = onLine st"
    by simp_all
  have len: "\<And>Q. length (filter Q ?P) = length (filter Q (filter selected (local_store st)))"
    by (simp add: getOfflineQueue_def length_filter_sort)
  have "List.map_filter (\<lambda>q. if q \<in> set ?P then after_attempt net q else Some q) (local_store st)
      = List.map_filter (\<lambda>q. if selected q then after_attempt net q else Some q) (local_store st)"
    by (rule map_filter_cong_set) simp
  then show "mset (local_store st') =
           mset (List.map_filter (\<lambda>q. if selected q then after_attempt net q else Some q)
             (local_store st))"
    using l1 res(2) by simp
  show "remote_side st' = foldl (remote_after net) (remote_side st) ?P"
    using l2 res(2) by simp
  show "total stats = length (filter selected (local_store st))"
    using l3 res(1) by (simp add: getOfflineQueue_def length_filter_sort)
  show "completed stats =
      length (filter (\<lambda>q. sync_error net q = None) (filter selected (local_store st)))"
    using l4 res(1) len[of "\<lambda>q. sync_error net q = None"] by simp
  show "failed stats =
      length (filter (\<lambda>q. sync_error net q \<noteq> None) (filter selected (local_store st)))"
    using l5 res(1) len[of "\<lambda>q. sync_error net q \<noteq> None"] by simp
  show "\<not> isSyncing st'" using res(2) by simp
  show "onLine st'" using l7 res(2) assms(3) by simp
qed

lemma pass_keeps_unique_ids:
  assumes "unique_ids (local_store st)"
  shows "unique_ids (local_store (snd (syncQueue net st)))"
proof (cases "isSyncing st \<or> \<not> onLine st")
  case True
  then show ?thesis using assms by (simp add: syncQueue_guard)
next
  case False
  obtain stats st' where r: "syncQueue net st = (stats, st')" by (cases "syncQueue net st")
  have "distinct (map q_id (List.map_filter
      (\<lambda>q. if selected q then after_attempt net q else Some q) (local_store st)))"
  proof (rule map_filter_keys)
    fix x y assume "(if selected x then after_attempt net x else Some x) = Some y"
    then show "q_id y = q_id x" by (auto dest: after_attempt_id split: if_splits)
  next
    show "distinct (map q_id (local_store st))" using assms by (simp add: unique_ids_def)
  qed
  then have "unique_ids (List.map_filter
      (\<lambda>q. if selected q then after_attempt net q else Some q) (local_store st))"
    unfolding unique_ids_def .
  then have "unique_ids (local_store st')"
    using unique_ids_mset[OF syncQueue_effect(1)[OF assms _ _ r]] False by simp
  then show ?thesis using r by simp
qed

lemma pass_keeps_unselected:
  assumes "unique_ids (local_store st)" "x \<in> set (local_store st)" "\<not> selected x"
  shows "x \<in> set (local_store (snd (syncQueue net st)))"
proof (cases "isSyncing st \<or> \<not> onLine st")
  case True
  then show ?thesis using assms by (simp add: syncQueue_guard)
next
  case False
  obtain stats st' where r: "syncQueue net st = (stats, st')" by (cases "syncQueue net st")
  have "(if selected x then after_attempt net x else Some x) = Some x" using assms(3) by simp
  then have "x \<in> set (List.map_filter
      (\<lambda>q. if selected q then after_attempt net q else Some q) (local_store st))"
    unfolding set_map_filter using assms(2) by blast
  moreover have "set (local_store st') = set (List.map_filter
      (\<lambda>q. if selected q then after_attempt net q else Some q) (local_store st))"
    using syncQueue_effect(1)[OF assms(1) _ _ r] False by (auto dest: mset_eq_setD)
  ultimately show ?thesis using r by simp
qed

lemma passes_keep_unselected:
  assumes "unique_ids (local_store st)" "x \<in> set (local_store st)" "\<not> selected x"
  shows "unique_ids (local_store (sync_passes nets st)) \<and> x \<in> set (local_store (sync_passes nets st))"
  using assms
proof (induction nets arbitrary: st)
  case Nil
  then show ?case by (simp add: sync_passes_def)
next
  case (Cons net nets)
  have "unique_ids (local_store (snd (syncQueue net st)))"
    using Cons.prems(1) by (rule pass_keeps_unique_ids)
  moreover have "x \<in> set (local_store (snd (syncQueue net st)))"
    using Cons.prems by (rule pass_keeps_unselected)
  ultimately show ?case
    using Cons.IH[of "snd (syncQueue net st)"] Cons.prems(3) by (simp add: sync_passes_def)
qed

lemma selected_without:
  assumes "unique_ids store" "x \<in> set store" "\<not> selected x"
  shows "filter selected (getOfflineQueue (removeFromQueue (q_id x) store))
       = filter selected (getOfflineQueue store)"
proof -
  have "getOfflineQueue (removeFromQueue (q_id x) store)
      = filter (\<lambda>q. q_id q \<noteq> q_id x) (getOfflineQueue store)"
    by (simp add: getOfflineQueue_def removeFromQueue_def filter_sort)
  moreover have c: "\<And>q. q \<in> set store \<Longrightarrow> (q_id q \<noteq> q_id x \<and> selected q) = selected q"
    using same_key_same_item[of q_id store _ x] assms by (auto simp: unique_ids_def)
  have "filter (\<lambda>q. q_id q \<noteq> q_id x \<and> selected q) (getOfflineQueue store)
      = filter selected (getOfflineQueue store)"
  proof (rule filter_cong[OF refl])
    fix q assume "q \<in> set (getOfflineQueue store)"
    then have "q \<in> set store" by simp
    then show "(q_id q \<noteq> q_id x \<and> selected q) = selected q" by (rule c)
  qed
  ultimately show ?thesis by simp
qed

subsection \<open>What a pass does is independent of the unselected items\<close>

lemma sync_item_store_blind:
  assumes "same_but_store a b"
  shows "fst (sync_item net (stats, a) item) = fst (sync_item net (stats, b) item)
       \<and> same_but_store (snd (sync_item net (stats, a) item)) (snd (sync_item net (stats, b) item))"
  using assms
  by (simp add: same_but_store_def sync_item_def syncSingleContribution_parts
      notifySyncProgress_def Let_def split: option.splits)

lemma sync_loop_store_blind:
  assumes "same_but_store a b"
  shows "fst (foldl (sync_item net) (stats, a) P) = fst (foldl (sync_item net) (stats, b) P)
       \<and> same_but_store (snd (foldl (sync_item net) (stats, a) P))
            (snd (foldl (sync_item net) (stats, b) P))"
  using assms
proof (induction P arbitrary: stats a b)
  case Nil
  then show ?case by simp
next
  case (Cons p P)
  obtain s1 a1 where a: "sync_item net (stats, a) p = (s1, a1)"
    by (cases "sync_item net (stats, a) p")
  obtain s2 b1 where b: "sync_item net (stats, b) p = (s2, b1)"
    by (cases "sync_item net (stats, b) p")
  from sync_item_store_blind[OF Cons.prems, of net stats p] a b
  have "s1 = s2" "same_but_store a1 b1" by simp_all
  then show ?case using Cons.IH[of a1 b1 s1] a b by simp
qed

lemma syncQueue_store_blind:
  assumes "same_but_store a b"
      and "filter selected (getOfflineQueue (local_store a))
           = filter selected (getOfflineQueue (local_store b))"
  shows "fst (syncQueue net a) = fst (syncQueue net b)
       \<and> same_but_store (snd (syncQueue net a)) (snd (syncQueue net b))"
proof (cases "isSyncing a \<or> \<not> onLine a")
  case True
  then have "isSyncing b \<or> \<not> onLine b" using assms(1) by (simp add: same_but_store_def)
  then show ?thesis using True assms(1) by (simp add: syncQueue_guard)
next
  case False
  then have fb: "\<not> isSyncing b" "onLine b" using assms(1) by (simp_all add: same_but_store_def)
  let ?P = "filter selected (getOfflineQueue (local_store a))"
  let ?s0 = "\<lparr>total = length ?P, completed = 0, failed = 0, current = None\<rparr>"
  have r: "same_but_store (a\<lparr>isSyncing := True\<rparr>) (b\<lparr>isSyncing := True\<rparr>)"
    using assms(1) by (simp add: same_but_store_def)
  note l = sync_loop_store_blind[OF r, of net ?s0 ?P]
  obtain s1 a1 where a: "foldl (sync_item net) (?s0, a\<lparr>isSyncing := True\<rparr>) ?P = (s1, a1)"
    by (cases "foldl (sync_item net) (?s0, a\<lparr>isSyncing := True\<rparr>) ?P")
  obtain s2 b1 where b: "foldl (sync_item net) (?s0, b\<lparr>isSyncing := True\<rparr>) ?P = (s2, b1)"
    by (cases "foldl (sync_item net) (?s0, b\<lparr>isSyncing := True\<rparr>) ?P")
  have eq: "s1 = s2" "same_but_store a1 b1" using l a b by simp_all
  have "syncQueue net a = (s1, a1\<lparr>isSyncing := False\<rparr>)"
    using False a by (simp add: syncQueue_def isOnline_def Let_def)
  moreover have "syncQueue net b = (s2, b1\<lparr>isSyncing := False\<rparr>)"
    using fb b assms(2) by (simp add: syncQueue_def isOnline_def Let_def)
  ultimately show ?thesis using eq by (simp add: same_but_store_def)
qed

lemmas queue_defs =
  getOfflineQueue_def saveQueueToIndexedDB_def saveToOfflineQueue_def removeFromQueue_def
  truthy_def set_item_status_def updateQueueItemStatus_def getFile_def uploadFile_def
  upload_optional_def url_of_def number_or_null_def string_or_null_def
  contributionData_def syncSingleContribution_def isOnline_def notifySyncProgress_def sync_item_def selected_def
  no_progress_def syncQueue_def sync_error_def remote_after_def mid_pass_def sync_passes_def
  unique_ids_def after_attempt_def same_but_store_def sort_key_def

lemmas queue_sample_defs =
  photo_def sample_form_def queued_def sample_queue_def sample_network_def idle_state_def


section \<open>Claims about the offline queue and the sync manager\<close>

text \<open>
  C6. A call of \<open>syncQueue\<close> made while a pass is in progress (\<open>isSyncing\<close> is set) or
  while the device is offline returns the zero result at once and leaves the whole state
  as it is: nothing is uploaded or inserted remotely, the local queue is not modified,
  no listener is notified. The flag is set at every point in the middle of a pass, so a
  second call made there, under any network conditions, is such a call: at most one pass
  runs at a time.
\<close>

theorem syncQueue_while_syncing_or_offline:
  "(isSyncing st \<or> \<not> onLine st \<longrightarrow>
      syncQueue net st = (\<lparr>total = 0, completed = 0, failed = 0, current = None\<rparr>, st)
      \<and> remote_side (snd (syncQueue net st)) = remote_side st
      \<and> local_store (snd (syncQueue net st)) = local_store st)
   \<and> isSyncing (mid_pass net st k)
   \<and> syncQueue net' (mid_pass net st k)
       = (\<lparr>total = 0, completed = 0, failed = 0, current = None\<rparr>, mid_pass net st k)"
proof -
  have flag: "isSyncing (mid_pass net st k)"
    by (simp add: mid_pass_def Let_def sync_loop_flags)
  then have "syncQueue net' (mid_pass net st k) = (no_progress, mid_pass net st k)"
    by (simp add: syncQueue_guard)
  then show ?thesis
    using flag syncQueue_guard[of st net] by (auto simp: no_progress_def)
qed

theorem syncQueue_while_syncing_or_offline_witness:
  "(isSyncing (idle_state\<lparr>isSyncing := True\<rparr>) \<or> \<not> onLine (idle_state\<lparr>isSyncing := True\<rparr>))
   \<and> syncQueue sample_network (idle_state\<lparr>isSyncing := True\<rparr>)
       = (\<lparr>total = 0, completed = 0, failed = 0, current = None\<rparr>, idle_state\<lparr>isSyncing := True\<rparr>)
   \<and> (isSyncing (idle_state\<lparr>onLine := False\<rparr>) \<or> \<not> onLine (idle_state\<lparr>onLine := False\<rparr>))
   \<and> syncQueue sample_network (idle_state\<lparr>onLine := False\<rparr>)
       = (\<lparr>total = 0, completed = 0, failed = 0, current = None\<rparr>, idle_state\<lparr>onLine := False\<rparr>)
   \<and> map q_id (local_store (mid_pass sample_network idle_state 1))
       = [''offline_2_b'', ''offline_3_c'', ''offline_4_d'']
   \<and> syncQueue sample_network (mid_pass sample_network idle_state 1)
       = (\<lparr>total = 0, completed = 0, failed = 0, current = None\<rparr>,
          mid_pass sample_network idle_state 1)"
proof -
  have h1: "isSyncing (idle_state\<lparr>isSyncing := True\<rparr>) \<or> \<not> onLine (idle_state\<lparr>isSyncing := True\<rparr>)"
    by simp
  have h2: "isSyncing (idle_state\<lparr>onLine := False\<rparr>) \<or> \<not> onLine (idle_state\<lparr>onLine := False\<rparr>)"
    by simp
  have mid: "map q_id (local_store (mid_pass sample_network idle_state 1))
       = [''offline_2_b'', ''offline_3_c'', ''offline_4_d'']"
    by (simp add: queue_defs queue_sample_defs Let_def)
  from syncQueue_while_syncing_or_offline[where st = "idle_state\<lparr>isSyncing := True\<rparr>"
      and net = sample_network and net' = sample_network and k = 1]
    syncQueue_while_syncing_or_offline[where st = "idle_state\<lparr>onLine := False\<rparr>"
      and net = sample_network and net' = sample_network and k = 1]
    syncQueue_while_syncing_or_offline[where st = idle_state
      and net = sample_network and net' = sample_network and k = 1]
  show ?thesis using h1 h2 mid by blast
qed





text \<open>
  C8. Enqueueing any form data with any images (a product image and up to three more)
  into a store with unique ids, under an id that is not yet in the store, returns that
  id. Listing the queue afterwards returns the new item, with status \<open>pending\<close>,
  \<open>retryCount\<close> 0, no error, and the form data, every image payload and the timestamp
  exactly as given, among the items that were listed before: the listing is in key
  order, and without the new item it is the listing from before the call.
\<close>

theorem enqueue_then_list:
  assumes "unique_ids store"
      and "''offline_'' @ decimal now_id @ ''_'' @ rnd \<notin> q_id ` set store"
      and "saveToOfflineQueue now_id rnd now_ts formData imgs store = (i, store')"
  shows "i = ''offline_'' @ decimal now_id @ ''_'' @ rnd
       \<and> \<lparr>q_id = i, q_timestamp = now_ts, q_formData = formData, q_images = imgs,
           q_status = Pending, q_retryCount = 0, q_error = None\<rparr>
             \<in> set (getOfflineQueue store')
       \<and> set (getOfflineQueue store') =
           insert \<lparr>q_id = i, q_timestamp = now_ts, q_formData = formData, q_images = imgs,
                   q_status = Pending, q_retryCount = 0, q_error = None\<rparr>
             (set (getOfflineQueue store))
       \<and> filter (\<lambda>q. q_id q \<noteq> i) (getOfflineQueue store') = getOfflineQueue store
       \<and> length (getOfflineQueue store') = length (getOfflineQueue store) + 1
       \<and> sorted (map q_id (getOfflineQueue store'))
       \<and> unique_ids store'"
proof -
  let ?i = "''offline_'' @ decimal now_id @ ''_'' @ rnd"
  let ?c = "\<lparr>q_id = ?i, q_timestamp = now_ts, q_formData = formData, q_images = imgs,
               q_status = Pending, q_retryCount = 0, q_error = None\<rparr>"
  let ?q = "getOfflineQueue store @ [?c]"
  have fresh: "\<forall>q\<in>set store. q_id q \<noteq> ?i"
  proof (intro ballI notI)
    fix q assume q: "q \<in> set store" and e: "q_id q = ?i"
    from imageI[OF q, of q_id] have "?i \<in> q_id ` set store" unfolding e .
    with assms(2) show False by (rule notE)
  qed
  have d: "distinct (map q_id ?q)"
    using assms(1) fresh getOfflineQueue_unique[of store] by (auto simp: unique_ids_def)
  then have "saveToOfflineQueue now_id rnd now_ts formData imgs store = (?i, ?q)"
    by (simp add: saveToOfflineQueue_def saveQueueToIndexedDB_def Let_def)
  then have r: "i = ?i" "store' = ?q" using assms(3) by simp_all
  have old: "filter (\<lambda>q. q_id q \<noteq> ?i) (getOfflineQueue store) = getOfflineQueue store"
    using fresh by (simp add: filter_id_conv)
  have "filter (\<lambda>q. q_id q \<noteq> ?i) (getOfflineQueue ?q)
      = sort_key q_id (filter (\<lambda>q. q_id q \<noteq> ?i) ?q)"
    by (simp only: getOfflineQueue_def filter_sort)
  also have "\<dots> = sort_key q_id (getOfflineQueue store)"
    using old by simp
  also have "\<dots> = getOfflineQueue store"
    by (simp add: getOfflineQueue_def sort_key_id_if_sorted)
  finally have rest: "filter (\<lambda>q. q_id q \<noteq> ?i) (getOfflineQueue ?q) = getOfflineQueue store" .
  have "set (getOfflineQueue ?q) = insert ?c (set (getOfflineQueue store))" by simp
  moreover have "length (getOfflineQueue ?q) = length (getOfflineQueue store) + 1"
    by (simp add: getOfflineQueue_def)
  moreover have "sorted (map q_id (getOfflineQueue ?q))"
    by (simp add: getOfflineQueue_def)
  moreover have "unique_ids ?q" using d by (simp add: unique_ids_def)
  ultimately show ?thesis using r rest by simp
qed

theorem enqueue_then_list_witness:
  "unique_ids sample_queue
   \<and> ''offline_'' @ decimal 1700000000123 @ ''_'' @ ''k3j9x0q1z'' \<notin> q_id ` set sample_queue
   \<and> fst (saveToOfflineQueue 1700000000123 ''k3j9x0q1z'' 1700000000124 sample_form
            (q_images (queued ''x'' ''five.jpg'' Pending 0)) sample_queue)
       = ''offline_1700000000123_k3j9x0q1z''
   \<and> \<lparr>q_id = ''offline_1700000000123_k3j9x0q1z'', q_timestamp = 1700000000124,
       q_formData = sample_form, q_images = q_images (queued ''x'' ''five.jpg'' Pending 0),
       q_status = Pending, q_retryCount = 0, q_error = None\<rparr>
        \<in> set (getOfflineQueue (snd (saveToOfflineQueue 1700000000123 ''k3j9x0q1z''
              1700000000124 sample_form (q_images (queued ''x'' ''five.jpg'' Pending 0))
              sample_queue)))
   \<and> map q_id (getOfflineQueue (snd (saveToOfflineQueue 1700000000123 ''k3j9x0q1z''
              1700000000124 sample_form (q_images (queued ''x'' ''five.jpg'' Pending 0))
              sample_queue)))
       = [''offline_1700000000123_k3j9x0q1z'', ''offline_1_a'', ''offline_2_b'',
          ''offline_3_c'', ''offline_4_d'']
   \<and> filter (\<lambda>q. q_id q \<noteq> ''offline_1700000000123_k3j9x0q1z'')
        (getOfflineQueue (snd (saveToOfflineQueue 1700000000123 ''k3j9x0q1z''
              1700000000124 sample_form (q_images (queued ''x'' ''five.jpg'' Pending 0))
              sample_queue)))
       = getOfflineQueue sample_queue"
proof -
  have d: "decimal 1700000000123 = ''1700000000123''"
    by (simp add: decimal.simps digit_char_def)
  have h1: "unique_ids sample_queue"
    by (simp add: queue_defs queue_sample_defs)
  have h2: "''offline_'' @ decimal 1700000000123 @ ''_'' @ ''k3j9x0q1z'' \<notin> q_id ` set sample_queue"
    by (simp add: d queue_sample_defs)
  have h3: "saveToOfflineQueue 1700000000123 ''k3j9x0q1z'' 1700000000124 sample_form
            (q_images (queued ''x'' ''five.jpg'' Pending 0)) sample_queue
      = (fst (saveToOfflineQueue 1700000000123 ''k3j9x0q1z'' 1700000000124 sample_form
            (q_images (queued ''x'' ''five.jpg'' Pending 0)) sample_queue),
         snd (saveToOfflineQueue 1700000000123 ''k3j9x0q1z'' 1700000000124 sample_form
            (q_images (queued ''x'' ''five.jpg'' Pending 0)) sample_queue))"
    by simp
  have ids: "map q_id (getOfflineQueue (snd (saveToOfflineQueue 1700000000123 ''k3j9x0q1z''
              1700000000124 sample_form (q_images (queued ''x'' ''five.jpg'' Pending 0))
              sample_queue)))
       = [''offline_1700000000123_k3j9x0q1z'', ''offline_1_a'', ''offline_2_b'',
          ''offline_3_c'', ''offline_4_d'']"
    by (simp add: d queue_defs queue_sample_defs Let_def)
  note t = enqueue_then_list[OF h1 h2 h3]
  have a: "fst (saveToOfflineQueue 1700000000123 ''k3j9x0q1z'' 1700000000124 sample_form
            (q_images (queued ''x'' ''five.jpg'' Pending 0)) sample_queue)
       = ''offline_1700000000123_k3j9x0q1z''"
    using t[THEN conjunct1] by (simp add: d)
  note b = t[THEN conjunct2, THEN conjunct1, unfolded a]
  note c = t[THEN conjunct2, THEN conjunct2, THEN conjunct2, THEN conjunct1, unfolded a]
  show ?thesis
    apply (intro conjI)
         apply (rule h1)
        apply (rule h2)
       apply (rule a)
      apply (rule b)
     apply (rule ids)
    apply (rule c)
    done
qed


text \<open>
  C9. \<open>updateQueueItemStatus\<close> with an id that no item of the queue has does nothing:
  it returns normally and the stored queue, so every item's status, \<open>retryCount\<close> and
  error, is what it was.
\<close>

theorem updateQueueItemStatus_unknown_id:
  assumes "i \<notin> q_id ` set store"
  shows "updateQueueItemStatus i st err store = store"
proof -
  have "find (\<lambda>q. q_id q = i) (getOfflineQueue store) = None"
    using assms by (auto simp: find_None_iff)
  then show ?thesis by (simp add: updateQueueItemStatus_def)
qed

theorem updateQueueItemStatus_unknown_id_witness:
  "''offline_9_z'' \<notin> q_id ` set sample_queue
   \<and> updateQueueItemStatus ''offline_9_z'' Failed (Some ''Error: boom'') sample_queue = sample_queue"
proof -
  have h: "''offline_9_z'' \<notin> q_id ` set sample_queue"
    by (simp add: queue_sample_defs)
  from updateQueueItemStatus_unknown_id[OF h, of Failed "Some ''Error: boom''"]
  show ?thesis using h by simp
qed


text \<open>
  C10. A pass attempts only the items that are \<open>pending\<close> or \<open>failed\<close> when it starts. An
  item of a queue with unique ids that is \<open>uploading\<close> or \<open>completed\<close> at that moment is
  still in the store after the pass, unchanged; the pass reports the same result and
  leaves the same remote side, flags and listeners' log as it would if the item were not
  in the queue at all, so nothing of the item is uploaded or inserted; and the item is still
  there, unchanged, after any number of further passes under any network conditions.
\<close>

theorem unselected_item_untouched:
  assumes "unique_ids (local_store st)"
      and "x \<in> set (local_store st)"
      and "q_status x = Uploading \<or> q_status x = Completed"
  shows "x \<in> set (local_store (snd (syncQueue net st)))
       \<and> fst (syncQueue net (st\<lparr>local_store := removeFromQueue (q_id x) (local_store st)\<rparr>))
           = fst (syncQueue net st)
       \<and> same_but_store
           (snd (syncQueue net (st\<lparr>local_store := removeFromQueue (q_id x) (local_store st)\<rparr>)))
           (snd (syncQueue net st))
       \<and> x \<in> set (local_store (sync_passes nets st))"
proof -
  have ns: "\<not> selected x" using assms(3) by (auto simp: selected_def)
  let ?st2 = "st\<lparr>local_store := removeFromQueue (q_id x) (local_store st)\<rparr>"
  have r: "same_but_store ?st2 st" by (simp add: same_but_store_def)
  have p: "filter selected (getOfflineQueue (local_store ?st2))
      = filter selected (getOfflineQueue (local_store st))"
    using selected_without[OF assms(1,2) ns] by simp
  show ?thesis
    using pass_keeps_unselected[OF assms(1,2) ns, of net]
      syncQueue_store_blind[OF r p, of net]
      passes_keep_unselected[OF assms(1,2) ns, of nets]
    by blast
qed

theorem unselected_item_untouched_witness:
  "unique_ids (local_store idle_state)
   \<and> queued ''offline_4_d'' ''four.jpg'' Uploading 0 \<in> set (local_store idle_state)
   \<and> (q_status (queued ''offline_4_d'' ''four.jpg'' Uploading 0) = Uploading
      \<or> q_status (queued ''offline_4_d'' ''four.jpg'' Uploading 0) = Completed)
   \<and> queued ''offline_4_d'' ''four.jpg'' Uploading 0
        \<in> set (local_store (snd (syncQueue sample_network idle_state)))
   \<and> queued ''offline_4_d'' ''four.jpg'' Uploading 0
        \<in> set (local_store (sync_passes [sample_network, sample_network] idle_state))
   \<and> map file_name (bucket (remote_side (snd (syncQueue sample_network idle_state))))
       = [''one.jpg'', ''back.jpg'', ''back.jpg'', ''three.jpg'', ''back.jpg'']"
proof -
  have h1: "unique_ids (local_store idle_state)"
    by (simp add: queue_defs queue_sample_defs)
  have h2: "queued ''offline_4_d'' ''four.jpg'' Uploading 0 \<in> set (local_store idle_state)"
    by (simp add: queue_sample_defs)
  have h3: "q_status (queued ''offline_4_d'' ''four.jpg'' Uploading 0) = Uploading
      \<or> q_status (queued ''offline_4_d'' ''four.jpg'' Uploading 0) = Completed"
    by (simp add: queue_sample_defs)
  have up: "map file_name (bucket (remote_side (snd (syncQueue sample_network idle_state))))
       = [''one.jpg'', ''back.jpg'', ''back.jpg'', ''three.jpg'', ''back.jpg'']"
    by (simp add: queue_defs queue_sample_defs Let_def)
  from unselected_item_untouched[OF h1 h2 h3, of sample_network "[sample_network, sample_network]"]
  show ?thesis using h1 h2 h3 up by blast
qed


end
